theory Spec2Isabelle
  imports Complex_Main
begin

section \<open>Time-to-live normalisation (session-owner-runtime.ts)\<close>

text \<open>
  A JavaScript \<open>number\<close> is a finite double, one of the two infinities or NaN. Every
  finite double is a rational, so finite values are carried as \<open>rat\<close>; the sign of
  zero is not kept (\<open>-0 < 0\<close> is false and \<open>-0 === 0\<close> is true in the source, so
  minus zero behaves as zero everywhere below).  The argument \<open>ttlMs\<close> is optional:
  \<open>None\<close> stands for both \<open>undefined\<close> and \<open>null\<close>, which \<open>ttlMs == null\<close> does not
  tell apart.
\<close>

datatype jsnum = NaN | PosInfinity | NegInfinity | Finite rat

definition DEFAULT_QUEUE_OWNER_TTL_MS :: int where
  "DEFAULT_QUEUE_OWNER_TTL_MS = 300000"

fun Number_isFinite :: "jsnum \<Rightarrow> bool" where
  "Number_isFinite (Finite x) = True"
| "Number_isFinite NaN = False"
| "Number_isFinite PosInfinity = False"
| "Number_isFinite NegInfinity = False"

text \<open>\<open>Math.round\<close> on a finite number: the nearest integer, ties towards plus infinity.\<close>

definition Math_round :: "rat \<Rightarrow> int" where
  "Math_round x = \<lfloor>x + 1 / 2\<rfloor>"

text \<open>
  \<open>ttlMs < 0\<close> as JavaScript compares numbers (false whenever NaN is involved).  In
  \<open>normalizeQueueOwnerTtlMs\<close> the result is an integer in every case, so the function
  returns an \<open>int\<close>; \<open>Math.round\<close> is only reached with a finite number, and the
  \<open>case\<close> that takes it apart has nothing to do for the other numbers.
\<close>

fun js_less_zero :: "jsnum \<Rightarrow> bool" where
  "js_less_zero (Finite x) = (x < 0)"
| "js_less_zero NegInfinity = True"
| "js_less_zero PosInfinity = False"
| "js_less_zero NaN = False"

fun normalizeQueueOwnerTtlMs :: "jsnum option \<Rightarrow> int" where
  "normalizeQueueOwnerTtlMs None = DEFAULT_QUEUE_OWNER_TTL_MS"
| "normalizeQueueOwnerTtlMs (Some ttlMs) =
     (if \<not> Number_isFinite ttlMs \<or> js_less_zero ttlMs then DEFAULT_QUEUE_OWNER_TTL_MS
      else (case ttlMs of Finite x \<Rightarrow> Math_round x | _ \<Rightarrow> DEFAULT_QUEUE_OWNER_TTL_MS))"

text \<open>
  The idle wait handed to \<open>owner.nextTask\<close>:
  \<open>queueOwnerTtlMs === 0 ? undefined : Math.max(0, queueOwnerTtlMs)\<close>;
  \<open>None\<close> is \<open>undefined\<close>, a wait without bound.
\<close>

definition idleWaitMs :: "int \<Rightarrow> int option" where
  "idleWaitMs queueOwnerTtlMs =
     (if queueOwnerTtlMs = 0 then None else Some (max 0 queueOwnerTtlMs))"

section \<open>Connecting to the owner's socket (queue-ipc-client.ts)\<close>

text \<open>
  A rejected \<open>connectToSocket\<close> carries a Node error whose \<open>code\<close> may be absent.
  The outside world is a parameter: \<open>connectToSocket env k\<close> is what the \<open>k\<close>-th call of
  \<open>connectToSocket(owner.socketPath)\<close> settles to (\<open>Inl\<close> the rejection), and
  \<open>isProcessAlive env k\<close> what the probe of \<open>owner.pid\<close> after that call answers.
\<close>

record node_error =
  code :: "string option"
  errorMessage :: string

record 'sock connect_env =
  connectToSocket :: "nat \<Rightarrow> node_error + 'sock"
  isProcessAlive :: "nat \<Rightarrow> bool"

definition QUEUE_CONNECT_ATTEMPTS :: nat where
  "QUEUE_CONNECT_ATTEMPTS = 40"

definition QUEUE_CONNECT_RETRY_MS :: nat where
  "QUEUE_CONNECT_RETRY_MS = 50"

definition shouldRetryQueueConnect :: "node_error \<Rightarrow> bool" where
  "shouldRetryQueueConnect error =
     (code error = Some ''ENOENT'' \<or> code error = Some ''ECONNREFUSED'')"

text \<open>
  What the loop did, beside its result: how many times it called \<open>connectToSocket\<close>
  and the argument of every \<open>waitMs\<close>, in order.
\<close>

record connect_trace =
  attempts :: nat
  waits :: "nat list"

definition no_trace :: connect_trace where
  "no_trace = \<lparr>attempts = 0, waits = []\<rparr>"

text \<open>
  The result is \<open>Inl error\<close> for a throw, \<open>Inr None\<close> for \<open>undefined\<close> and
  \<open>Inr (Some socket)\<close> for a connected socket.  The loop variable \<open>attempt\<close> and
  \<open>lastError\<close> are the source's.
\<close>

function connectLoop ::
  "'sock connect_env \<Rightarrow> nat \<Rightarrow> node_error option \<Rightarrow> connect_trace
     \<Rightarrow> (node_error + 'sock option) \<times> connect_trace" where
  "connectLoop env attempt lastError tr =
     (if attempt < QUEUE_CONNECT_ATTEMPTS then
        (let tr' = tr\<lparr>attempts := attempts tr + 1\<rparr> in
         case connectToSocket env attempt of
           Inr socket \<Rightarrow> (Inr (Some socket), tr')
         | Inl error \<Rightarrow>
             if \<not> shouldRetryQueueConnect error then (Inl error, tr')
             else if \<not> isProcessAlive env attempt then (Inr None, tr')
             else connectLoop env (attempt + 1) (Some error)
                    (tr'\<lparr>waits := waits tr' @ [QUEUE_CONNECT_RETRY_MS]\<rparr>))
      else
        (case lastError of
           Some error \<Rightarrow> if \<not> shouldRetryQueueConnect error then (Inl error, tr)
                         else (Inr None, tr)
         | None \<Rightarrow> (Inr None, tr)))"
  by pat_completeness auto
termination
  by (relation "measure (\<lambda>(env, attempt, lastError, tr). QUEUE_CONNECT_ATTEMPTS - attempt)") auto

definition connectToQueueOwner ::
  "'sock connect_env \<Rightarrow> (node_error + 'sock option) \<times> connect_trace" where
  "connectToQueueOwner env = connectLoop env 0 None no_trace"

text \<open>
  \<open>retry_at env j\<close>: call \<open>j\<close> was refused with a code the loop retries on and the
  owner's pid was still alive afterwards, so the loop waits and goes round again.
\<close>

definition retry_at :: "'sock connect_env \<Rightarrow> nat \<Rightarrow> bool" where
  "retry_at env j =
     (case connectToSocket env j of
        Inl error \<Rightarrow> shouldRetryQueueConnect error \<and> isProcessAlive env j
      | Inr socket \<Rightarrow> False)"

text \<open>
  \<open>retried env\<close> counts the leading calls that were retried: the first call that
  connects, fails for another reason or finds the pid dead ends the count, and so do
  the forty attempts.  \<open>trace_of n m\<close> is the trace of \<open>n\<close> calls and \<open>m\<close> waits of
  fifty milliseconds.
\<close>

definition retried :: "'sock connect_env \<Rightarrow> nat" where
  "retried env = length (takeWhile (retry_at env) [0..<QUEUE_CONNECT_ATTEMPTS])"

definition trace_of :: "nat \<Rightarrow> nat \<Rightarrow> connect_trace" where
  "trace_of n m = \<lparr>attempts = n, waits = replicate m QUEUE_CONNECT_RETRY_MS\<rparr>"

text \<open>
  A sample world: the socket file is missing for the first three calls, the owner is
  alive throughout, and the fourth call connects (to socket number 7).
\<close>

definition env_late_socket :: "nat connect_env" where
  "env_late_socket =
     \<lparr>connectToSocket =
        (\<lambda>k. if k < 3 then Inl \<lparr>code = Some ''ENOENT'', errorMessage = ''connect ENOENT''\<rparr>
             else Inr 7),
      isProcessAlive = (\<lambda>k. True)\<rparr>"

section \<open>The turn controller (queue-owner-turn-controller.ts)\<close>

text \<open>
  Modelled from the spec: the class \<open>QueueOwnerTurnController\<close> of
  \<open>queue-owner-turn-controller.ts\<close> is missing from the source files; its test
  (\<open>test/turn-controller.test.ts\<close>) and its caller (\<open>session-owner-runtime.ts\<close>) are
  there.  Every definition of this section follows the spec's section 4.E (the state
  machine, row by row), its data model (section 3) and its glossary.  The names of the
  methods and of the getters \<open>lifecycleState\<close> and \<open>hasPendingCancel\<close> are the test's.
  The four states are the spec's \<open>TurnState\<close>.
\<close>

datatype QueueOwnerTurnState = Idle | Starting | Active | Closing

text \<open>
  Modelled from the spec: the active controller, ``the ACP-client-level handle to the
  in-flight prompt''; its type \<open>QueueOwnerActiveSessionController\<close> is declared in the
  missing file.  The test builds one from callbacks; two of them matter for cancelling,
  \<open>hasActivePrompt()\<close> and \<open>requestCancelActivePrompt()\<close>, whose promise resolves to a
  boolean.  The record holds what each of them answers at present; the answers may
  change while the controller stays installed (the test flips its variable
  \<open>promptActive\<close>).
\<close>

record QueueOwnerActiveSessionController =
  hasActivePrompt :: bool
  requestCancelActivePrompt :: bool

text \<open>
  Modelled from the spec: the state of the missing class, that is the \<open>TurnState\<close>, the
  pending cancel (the spec's optional \<open>PendingCancel\<close>, of which the test reads
  \<open>hasPendingCancel\<close>) and the installed active controller.  The spec's tie-break
  (``within one prompt turn the controller delivers at most one cancel; subsequent
  cancel requests while pending is set return \<open>cancelled: true\<close> but do not re-invoke the
  adapter'') needs the controller to know that it has handed a cancel to the adapter in
  this turn: that is \<open>cancelIssued\<close>.  \<open>requestCancelActivePrompt\<close> returns a promise:
  \<open>cancelAnswer\<close> is the answer of a call that has been made and has not yet come back
  (the spec counts child-process I/O among the suspension points).  \<open>cancelCalls\<close> is
  not a field of the class: it counts the calls of \<open>requestCancelActivePrompt\<close> made so
  far, the cancels that reached the adapter, as the test's counter of the same name
  does.
\<close>

record QueueOwnerTurnController =
  lifecycleState :: QueueOwnerTurnState
  hasPendingCancel :: bool
  activeController :: "QueueOwnerActiveSessionController option"
  cancelIssued :: bool
  cancelAnswer :: "bool option"
  cancelCalls :: nat

text \<open>
  Modelled from the spec: the constructor of the missing class.  The test finds a new
  controller idle.
\<close>

definition newTurnController :: QueueOwnerTurnController where
  "newTurnController =
     \<lparr>lifecycleState = Idle, hasPendingCancel = False, activeController = None,
      cancelIssued = False, cancelAnswer = None, cancelCalls = 0\<rparr>"

text \<open>
  Modelled from the spec: \<open>beginTurn\<close> of the missing class, the first column of the
  state machine: idle goes to starting, and the other rows have a dash, which is no
  transition.
\<close>

definition beginTurn :: "QueueOwnerTurnController \<Rightarrow> QueueOwnerTurnController" where
  "beginTurn s = (if lifecycleState s = Idle then s\<lparr>lifecycleState := Starting\<rparr> else s)"

text \<open>
  Modelled from the spec: \<open>markPromptActive\<close> of the missing class, the second column:
  starting goes to active, active stays active.  The table calls it illegal in state
  idle and has a dash in state closing; in both the state is left as it is.
\<close>

definition markPromptActive :: "QueueOwnerTurnController \<Rightarrow> QueueOwnerTurnController" where
  "markPromptActive s =
     (if lifecycleState s = Starting \<or> lifecycleState s = Active
      then s\<lparr>lifecycleState := Active\<rparr> else s)"

text \<open>
  Modelled from the spec: \<open>endTurn\<close> of the missing class, the third column: starting
  and active go to idle.  The pending cancel is ``cleared on successful delivery or on
  turn termination'' and ``lives at most across one turn''; with the turn ends what the
  controller knows of the turn's cancel, and an answer that comes back later finds
  nothing to clear.
\<close>

definition endTurn :: "QueueOwnerTurnController \<Rightarrow> QueueOwnerTurnController" where
  "endTurn s =
     s\<lparr>lifecycleState :=
         (if lifecycleState s = Starting \<or> lifecycleState s = Active then Idle
          else lifecycleState s),
       hasPendingCancel := False, cancelIssued := False, cancelAnswer := None\<rparr>"

text \<open>
  Modelled from the spec: \<open>beginClosing\<close> of the missing class, the fourth column:
  idle, starting and active go to closing.
\<close>

definition beginClosing :: "QueueOwnerTurnController \<Rightarrow> QueueOwnerTurnController" where
  "beginClosing s = s\<lparr>lifecycleState := Closing\<rparr>"

text \<open>
  Modelled from the spec: \<open>setActiveController\<close> and \<open>clearActiveController\<close> of the
  missing class install and remove the active controller.
\<close>

definition setActiveController ::
  "QueueOwnerActiveSessionController \<Rightarrow> QueueOwnerTurnController \<Rightarrow> QueueOwnerTurnController" where
  "setActiveController c s = s\<lparr>activeController := Some c\<rparr>"

definition clearActiveController :: "QueueOwnerTurnController \<Rightarrow> QueueOwnerTurnController" where
  "clearActiveController s = s\<lparr>activeController := None\<rparr>"

text \<open>
  Modelled from the spec: what the missing class does when it delivers a cancel through
  the active controller.  \<open>deliverCancel\<close> is the call: the adapter is asked
  (\<open>requestCancelActivePrompt()\<close>, counted), the controller notes that the turn's cancel
  is with the adapter, and the answer is on its way.  \<open>cancelAnswered\<close> is what happens
  when the answer comes back: a successful delivery clears the pending slot.
\<close>

definition deliverCancel ::
  "QueueOwnerActiveSessionController \<Rightarrow> QueueOwnerTurnController \<Rightarrow> QueueOwnerTurnController" where
  "deliverCancel c s =
     s\<lparr>cancelIssued := True, cancelAnswer := Some (requestCancelActivePrompt c),
       cancelCalls := cancelCalls s + 1\<rparr>"

definition cancelAnswered :: "QueueOwnerTurnController \<Rightarrow> QueueOwnerTurnController" where
  "cancelAnswered s =
     (case cancelAnswer s of
        None \<Rightarrow> s
      | Some delivered \<Rightarrow>
          s\<lparr>cancelAnswer := None, hasPendingCancel := (hasPendingCancel s \<and> \<not> delivered)\<rparr>)"

text \<open>
  Modelled from the spec: \<open>requestCancel\<close> of the missing class.  The last column of
  the table: idle and starting accept, record the pending cancel and return true;
  active delivers through the active controller and returns its result; closing returns
  false.  The tie-break: while a cancel is pending, and once the turn's cancel has been
  handed to the adapter, a further request returns true and does not ask the adapter
  again.  A turn that is active with no prompt in flight (\<open>hasActivePrompt()\<close> false, or
  no controller installed) has nothing to deliver to: as in the window the spec
  describes (``\<open>hasActivePrompt()\<close> is false, so cancellation is accepted and deferred''),
  and as the glossary says of the pending cancel (``accepted while no active controller
  exists''), the cancel is recorded as pending.  The first component is what the promise
  resolves to; the second is the state the call leaves at once, with the adapter's
  answer still on its way if the adapter was asked.
\<close>

definition requestCancel :: "QueueOwnerTurnController \<Rightarrow> bool \<times> QueueOwnerTurnController" where
  "requestCancel s =
     (case lifecycleState s of
        Idle \<Rightarrow> (True, s\<lparr>hasPendingCancel := True\<rparr>)
      | Starting \<Rightarrow> (True, s\<lparr>hasPendingCancel := True\<rparr>)
      | Active \<Rightarrow>
          if hasPendingCancel s \<or> cancelIssued s then (True, s)
          else (case activeController s of
                  Some c \<Rightarrow>
                    if hasActivePrompt c then (requestCancelActivePrompt c, deliverCancel c s)
                    else (True, s\<lparr>hasPendingCancel := True\<rparr>)
                | None \<Rightarrow> (True, s\<lparr>hasPendingCancel := True\<rparr>))
      | Closing \<Rightarrow> (False, s))"

text \<open>
  Modelled from the spec: \<open>applyPendingCancel\<close> of the missing class: ``attempt to
  deliver a recorded cancel; return true iff actually delivered''; the attempt ``that
  finds \<open>hasActivePrompt()==true\<close> performs the cancel and clears the pending slot''.
  By the tie-break a cancel that is already with the adapter is not delivered again.
  As for \<open>requestCancel\<close>, the first component is what the promise resolves to and the
  second the state the call leaves at once.
\<close>

definition applyPendingCancel :: "QueueOwnerTurnController \<Rightarrow> bool \<times> QueueOwnerTurnController" where
  "applyPendingCancel s =
     (case activeController s of
        Some c \<Rightarrow>
          if hasPendingCancel s \<and> \<not> cancelIssued s \<and> hasActivePrompt c
          then (requestCancelActivePrompt c, deliverCancel c s)
          else (False, s)
      | None \<Rightarrow> (False, s))"

section \<open>The owner runtime (session-owner-runtime.ts)\<close>

text \<open>
  \<open>createQueueOwnerTurnRuntime\<close> wraps the turn controller.  JavaScript runs a handler
  without interruption up to its next \<open>await\<close>; what lies between two \<open>await\<close>s is one
  step here, and other handlers may run between the steps of one handler.

  \<open>onClientAvailable\<close> installs the controller and calls \<open>scheduleApplyPendingCancel\<close>,
  which starts \<open>applyPendingCancel\<close> and awaits nothing: the handler returns with the
  state that call leaves at once, and drops its result and its error.  \<open>onPromptActive\<close>
  marks the prompt active and starts \<open>applyPendingCancel\<close>; its \<open>await\<close> only delays the
  handler's own return.  In both the adapter's answer, if the adapter was asked, comes
  back later, as a step of its own (\<open>cancelAnswered\<close>).
\<close>

definition onClientAvailable ::
  "QueueOwnerActiveSessionController \<Rightarrow> QueueOwnerTurnController \<Rightarrow> QueueOwnerTurnController" where
  "onClientAvailable controller s = snd (applyPendingCancel (setActiveController controller s))"

definition onClientClosed :: "QueueOwnerTurnController \<Rightarrow> QueueOwnerTurnController" where
  "onClientClosed s = clearActiveController s"

definition onPromptActive :: "QueueOwnerTurnController \<Rightarrow> QueueOwnerTurnController" where
  "onPromptActive s = snd (applyPendingCancel (markPromptActive s))"

text \<open>
  \<open>controlHandlers.cancelPrompt\<close> has two \<open>await\<close>s: it calls \<open>requestCancel\<close>, is
  suspended until that has resolved, then returns false if the request was not accepted
  and otherwise calls \<open>applyPendingCancel\<close>, is suspended again, and returns true.
  \<open>cancelPrompt\<close> is the handler taken whole, for a request that nothing interleaves
  with: every answer of the adapter has come back when an \<open>await\<close> returns.  Its two
  segments, as they run when other handlers come in between, are the steps
  \<open>CancelPrompt\<close> and \<open>CancelPromptResumes\<close> below.
\<close>

definition cancelPrompt :: "QueueOwnerTurnController \<Rightarrow> bool \<times> QueueOwnerTurnController" where
  "cancelPrompt s =
     (case requestCancel s of
        (accepted, s') \<Rightarrow>
          if \<not> accepted then (False, cancelAnswered s')
          else (True, cancelAnswered (snd (applyPendingCancel (cancelAnswered s')))))"

text \<open>
  \<open>runPromptTurn\<close>: \<open>beginTurn\<close>, then \<open>run\<close>, then \<open>endTurn\<close> in the \<open>finally\<close> block,
  whether \<open>run\<close> resolved (\<open>Inr\<close>) or rejected (\<open>Inl\<close>); the rejection is rethrown.
\<close>

definition runPromptTurn ::
  "(QueueOwnerTurnController \<Rightarrow> ('e + 'a) \<times> QueueOwnerTurnController)
     \<Rightarrow> QueueOwnerTurnController \<Rightarrow> ('e + 'a) \<times> QueueOwnerTurnController" where
  "runPromptTurn run s =
     (case run (beginTurn s) of
        (Inr v, s') \<Rightarrow> (Inr v, endTurn s')
      | (Inl error, s') \<Rightarrow> (Inl error, endTurn s'))"

text \<open>
  \<open>deps.runQueuedTask\<close> is a parameter of the runtime.  While it runs it may call the
  three callbacks it is given, clients may send \<open>cancel_prompt\<close> (the queue server then
  calls \<open>controlHandlers.cancelPrompt\<close>), the adapter may answer a cancel it was asked
  for, and what the adapter's callbacks answer may change.  A task is the list of the
  steps that happen while it runs, in the order they happen, and how the promise
  settles; every interleaving of the handlers is such a list.  The steps:
  \<open>ClientAvailable\<close>, \<open>ClientClosed\<close> and \<open>PromptActive\<close> are the three callbacks;
  \<open>CancelPrompt\<close> is \<open>cancelPrompt\<close> up to its first \<open>await\<close> (the call of
  \<open>requestCancel\<close>) and \<open>CancelPromptResumes\<close> is its continuation when the request was
  accepted (the call of \<open>applyPendingCancel\<close>); \<open>CancelAnswered\<close> is the adapter's answer
  coming back to the turn controller; \<open>AdapterAnswers\<close> changes what the installed
  controller's callbacks answer from now on.  The lists are not restricted: a list may
  hold a continuation with no call before it, which is an \<open>applyPendingCancel\<close> on
  demand, and an answer with no call before it, which finds nothing.
  So that the turn can be observed from inside, the value the promise settles with
  carries the lifecycle state the task found when it started to run, beside the error
  if it rejects; the source's promise carries nothing.
\<close>

datatype turn_event =
    ClientAvailable QueueOwnerActiveSessionController
  | ClientClosed
  | PromptActive
  | CancelPrompt
  | CancelPromptResumes
  | CancelAnswered
  | AdapterAnswers QueueOwnerActiveSessionController

record queued_task =
  events :: "turn_event list"
  rejection :: "string option"

fun turn_step :: "QueueOwnerTurnController \<Rightarrow> turn_event \<Rightarrow> QueueOwnerTurnController" where
  "turn_step s (ClientAvailable c) = onClientAvailable c s"
| "turn_step s ClientClosed = onClientClosed s"
| "turn_step s PromptActive = onPromptActive s"
| "turn_step s CancelPrompt = snd (requestCancel s)"
| "turn_step s CancelPromptResumes = snd (applyPendingCancel s)"
| "turn_step s CancelAnswered = cancelAnswered s"
| "turn_step s (AdapterAnswers c) =
     s\<lparr>activeController := map_option (\<lambda>old. c) (activeController s)\<rparr>"

definition turn_steps :: "QueueOwnerTurnController \<Rightarrow> turn_event list \<Rightarrow> QueueOwnerTurnController" where
  "turn_steps s evs = foldl turn_step s evs"

definition runQueuedTask ::
  "queued_task \<Rightarrow> QueueOwnerTurnController
     \<Rightarrow> (string \<times> QueueOwnerTurnState + QueueOwnerTurnState) \<times> QueueOwnerTurnController" where
  "runQueuedTask task s =
     ((case rejection task of
         Some error \<Rightarrow> Inl (error, lifecycleState s)
       | None \<Rightarrow> Inr (lifecycleState s)),
      turn_steps s (events task))"

text \<open>
  The main loop of \<open>runQueueOwnerProcess\<close>.  The queue is a parameter: each
  \<open>NextTask\<close> is what one call of \<open>owner.nextTask(idleWaitMs)\<close> resolves to (\<open>None\<close> for
  \<open>undefined\<close>), and \<open>ControlCancel\<close> is a \<open>cancel_prompt\<close> that arrives while the loop
  waits in \<open>nextTask\<close>.  A queue that ends leaves the loop waiting (\<open>Waiting\<close>).  The
  loop reports, for every call of \<open>nextTask\<close>, the lifecycle state it was made in, and
  for every task the state that \<open>runQueuedTask\<close> found when it started.  The lease, the queue server
  and the heartbeat (\<open>refreshHeartbeat\<close>) touch neither the turn controller nor the
  loop's control flow and are left out.
\<close>

datatype queue_step = NextTask "queued_task option" | ControlCancel

datatype loop_end = Waiting | Broke | Threw string

datatype loop_seen = AtNextTask QueueOwnerTurnState | AtRunQueuedTask QueueOwnerTurnState

fun mainLoop ::
  "QueueOwnerTurnController \<Rightarrow> queue_step list
     \<Rightarrow> loop_end \<times> QueueOwnerTurnController \<times> loop_seen list" where
  "mainLoop s [] = (Waiting, s, [])"
| "mainLoop s (ControlCancel # queue) = mainLoop (snd (cancelPrompt s)) queue"
| "mainLoop s (NextTask None # queue) = (Broke, s, [AtNextTask (lifecycleState s)])"
| "mainLoop s (NextTask (Some task) # queue) =
     (case runPromptTurn (runQueuedTask task) s of
        (Inl (error, started), s') \<Rightarrow>
          (Threw error, s', [AtNextTask (lifecycleState s), AtRunQueuedTask started])
      | (Inr started, s') \<Rightarrow>
          (case mainLoop s' queue of
             (e, s'', seen) \<Rightarrow>
               (e, s'', AtNextTask (lifecycleState s) # AtRunQueuedTask started # seen)))"

text \<open>
  \<open>runQueueOwnerProcess\<close>: without the lease nothing runs (\<open>None\<close>).  With it, the
  loop runs on a new turn controller and the \<open>finally\<close> block calls \<open>beginClosing\<close>.
  The first component is the normalised time-to-live, the second the idle wait handed
  to every \<open>nextTask\<close>.
\<close>

definition runQueueOwnerProcess ::
  "jsnum option \<Rightarrow> bool \<Rightarrow> queue_step list
     \<Rightarrow> (int \<times> int option \<times> loop_end \<times> QueueOwnerTurnController \<times> loop_seen list) option" where
  "runQueueOwnerProcess ttlMs lease queue =
     (if \<not> lease then None
      else (let queueOwnerTtlMs = normalizeQueueOwnerTtlMs ttlMs in
            case mainLoop newTurnController queue of
              (e, s, seen) \<Rightarrow>
                Some (queueOwnerTtlMs, idleWaitMs queueOwnerTtlMs, e, beginClosing s, seen)))"

section \<open>Sample adapters and tasks\<close>

text \<open>
  Two adapters, as the test builds them: one with a prompt in flight that cancels it
  when asked, and the test's default, which has no prompt and answers false.  The
  adapter of the test's third case is the second of these until its variable
  \<open>promptActive\<close> is set, and the first from then on.
\<close>

definition willing_adapter :: QueueOwnerActiveSessionController where
  "willing_adapter = \<lparr>hasActivePrompt = True, requestCancelActivePrompt = True\<rparr>"

definition default_adapter :: QueueOwnerActiveSessionController where
  "default_adapter = \<lparr>hasActivePrompt = False, requestCancelActivePrompt = False\<rparr>"

text \<open>
  A turn in which the user cancels before the adapter has taken the prompt, the client
  becomes available with the prompt in flight, the prompt is marked active, and the
  user cancels once more.
\<close>

definition twice_cancelled_task :: queued_task where
  "twice_cancelled_task =
     \<lparr>events = [CancelPrompt, ClientAvailable willing_adapter, PromptActive, CancelPrompt],
      rejection = None\<rparr>"


text \<open>A turn with one early cancel whose task then fails.\<close>

definition failing_task :: queued_task where
  "failing_task =
     \<lparr>events = [CancelPrompt, ClientAvailable default_adapter, PromptActive],
      rejection = Some ''adapter exited''\<rparr>"

section \<open>Notions used to state the properties of a turn\<close>

text \<open>\<open>in_turn s\<close>: a prompt turn is under way.\<close>

definition in_turn :: "QueueOwnerTurnController \<Rightarrow> bool" where
  "in_turn s = (lifecycleState s = Starting \<or> lifecycleState s = Active)"

text \<open>
  \<open>prompt_in_flight s\<close>: an active controller is installed and its \<open>hasActivePrompt()\<close>
  answers true.
\<close>

definition prompt_in_flight :: "QueueOwnerTurnController \<Rightarrow> bool" where
  "prompt_in_flight s =
     (case activeController s of Some c \<Rightarrow> hasActivePrompt c | None \<Rightarrow> False)"



text \<open>
  \<open>awaiting_delivery s\<close>: a cancel is pending and has not been handed to the adapter.
\<close>

definition awaiting_delivery :: "QueueOwnerTurnController \<Rightarrow> bool" where
  "awaiting_delivery s = (hasPendingCancel s \<and> \<not> cancelIssued s \<and> cancelAnswer s = None)"


section \<open>Submitting a prompt over the queue socket (queue-ipc-client.ts)\<close>

text \<open>
  \<open>submitToQueueOwner\<close> settles one promise from three socket events.  The model
  starts where the socket is connected and the first \<open>setContext\<close> has been made.
  \<open>JSON.parse\<close> and \<open>parseQueueOwnerMessage\<close> (of \<open>queue-messages.ts\<close>, which is not
  among the sources) are not modelled: a line arrives as what the two make of it, a
  text that is no JSON, a JSON value that is no owner message, or an owner message with
  its \<open>requestId\<close>.  The message types are those the function tests for and those of
  the spec's section 4.B.  Notifications, operations and the rest of a result are
  carried as strings.
\<close>

record owner_error_message =
  msg_code :: "string option"
  msg_detailCode :: "string option"
  msg_origin :: "string option"
  msg_message :: string
  msg_retryable :: "bool option"
  msg_acp :: "string option"

record prompt_result =
  stopReason :: string
  resultRest :: string

datatype owner_message =
    Accepted
  | ErrorMessage owner_error_message
  | SessionUpdate string
  | ClientOperation string
  | Done string
  | Result prompt_result
  | CancelResult bool
  | SetModeResult
  | SetConfigOptionResult string

datatype line = InvalidJson | NotAMessage | Message string owner_message

text \<open>What the promise settles to: a rejection with an error, or an outcome.\<close>

datatype error_class = QueueConnectionError | QueueProtocolError | SocketFailure

record queue_error =
  errorClass :: error_class
  message :: string
  outputCode :: "string option"
  detailCode :: "string option"
  origin :: "string option"
  retryable :: "bool option"
  acp :: "string option"
  outputAlreadyEmitted :: bool

record SessionEnqueueResult =
  queued :: bool
  sessionId :: string
  requestId :: string

datatype SessionSendOutcome = EnqueueResult SessionEnqueueResult | SendResult prompt_result

text \<open>
  The output formatter is an argument of the function; the model keeps the calls made
  on it, in order.
\<close>

record output_error =
  out_code :: string
  out_detailCode :: "string option"
  out_origin :: string
  out_message :: string
  out_retryable :: "bool option"
  out_acp :: "string option"

datatype formatter_call =
    SetContext string string string
  | OnError output_error
  | Flush
  | OnSessionUpdate string
  | OnClientOperation string
  | OnDone string

text \<open>
  The options the function reads, and the \<open>requestId\<close> that \<open>randomUUID()\<close> gave it.
  \<open>queueErrorAlreadyEmitted\<close> is \<open>options.errorEmissionPolicy?.queueErrorAlreadyEmitted\<close>.
\<close>

record submit_options =
  opt_sessionId :: string
  opt_requestId :: string
  waitForCompletion :: bool
  queueErrorAlreadyEmitted :: "bool option"

text \<open>The variables of the promise's closure, what it settled to, and the formatter's calls.\<close>

record submit_state =
  settled :: bool
  acknowledged :: bool
  sawDone :: bool
  settlement :: "(queue_error + SessionSendOutcome) option"
  formatter_calls :: "formatter_call list"

definition initial_submit :: "submit_options \<Rightarrow> submit_state" where
  "initial_submit opts =
     \<lparr>settled = False, acknowledged = False, sawDone = False, settlement = None,
      formatter_calls = [SetContext (opt_sessionId opts) (opt_requestId opts) ''prompt'']\<rparr>"

definition finishResolve :: "SessionSendOutcome \<Rightarrow> submit_state \<Rightarrow> submit_state" where
  "finishResolve result s =
     (if settled s then s else s\<lparr>settled := True, settlement := Some (Inr result)\<rparr>)"

definition finishReject :: "queue_error \<Rightarrow> submit_state \<Rightarrow> submit_state" where
  "finishReject error s =
     (if settled s then s else s\<lparr>settled := True, settlement := Some (Inl error)\<rparr>)"

definition call :: "formatter_call \<Rightarrow> submit_state \<Rightarrow> submit_state" where
  "call c s = s\<lparr>formatter_calls := formatter_calls s @ [c]\<rparr>"

text \<open>The errors the function builds itself: all of origin \<open>queue\<close>, all retryable.\<close>

definition queue_failure :: "error_class \<Rightarrow> string \<Rightarrow> string \<Rightarrow> queue_error" where
  "queue_failure cls text dc =
     \<lparr>errorClass = cls, message = text, outputCode = None, detailCode = Some dc,
      origin = Some ''queue'', retryable = Some True, acp = None,
      outputAlreadyEmitted = False\<rparr>"

definition queued_result :: "submit_options \<Rightarrow> SessionSendOutcome" where
  "queued_result opts =
     EnqueueResult \<lparr>queued = True, sessionId = opt_sessionId opts, requestId = opt_requestId opts\<rparr>"

definition owner_failure :: "submit_options \<Rightarrow> owner_error_message \<Rightarrow> queue_error" where
  "owner_failure opts m =
     \<lparr>errorClass = QueueConnectionError, message = msg_message m, outputCode = msg_code m,
      detailCode = msg_detailCode m,
      origin = Some (case msg_origin m of Some x \<Rightarrow> x | None \<Rightarrow> ''queue''),
      retryable = msg_retryable m, acp = msg_acp m,
      outputAlreadyEmitted =
        (case queueErrorAlreadyEmitted opts of Some x \<Rightarrow> x | None \<Rightarrow> True)\<rparr>"

definition shown_error :: "owner_error_message \<Rightarrow> output_error" where
  "shown_error m =
     \<lparr>out_code = (case msg_code m of Some x \<Rightarrow> x | None \<Rightarrow> ''RUNTIME''),
      out_detailCode = msg_detailCode m,
      out_origin = (case msg_origin m of Some x \<Rightarrow> x | None \<Rightarrow> ''queue''),
      out_message = msg_message m, out_retryable = msg_retryable m, out_acp = msg_acp m\<rparr>"

text \<open>
  \<open>processLine\<close>, branch by branch in the source's order: invalid JSON; no message, or
  another request's; \<open>accepted\<close>; \<open>error\<close>; anything else before the acknowledgement;
  \<open>session_update\<close>; \<open>client_operation\<close>; \<open>done\<close>; \<open>result\<close>; any other type.
\<close>

fun after_ack :: "submit_options \<Rightarrow> submit_state \<Rightarrow> owner_message \<Rightarrow> submit_state" where
  "after_ack opts s (SessionUpdate notification) = call (OnSessionUpdate notification) s"
| "after_ack opts s (ClientOperation operation) = call (OnClientOperation operation) s"
| "after_ack opts s (Done reason) = (call (OnDone reason) s)\<lparr>sawDone := True\<rparr>"
| "after_ack opts s (Result result) =
     finishResolve (SendResult result)
       (call Flush (if \<not> sawDone s then call (OnDone (stopReason result)) s else s))"
| "after_ack opts s other =
     finishReject (queue_failure QueueProtocolError
        ''Queue owner returned unexpected response'' ''QUEUE_PROTOCOL_UNEXPECTED_RESPONSE'') s"

fun processLine :: "submit_options \<Rightarrow> submit_state \<Rightarrow> line \<Rightarrow> submit_state" where
  "processLine opts s InvalidJson =
     finishReject (queue_failure QueueProtocolError
        ''Queue owner sent invalid JSON payload'' ''QUEUE_PROTOCOL_INVALID_JSON'') s"
| "processLine opts s NotAMessage =
     finishReject (queue_failure QueueProtocolError
        ''Queue owner sent malformed message'' ''QUEUE_PROTOCOL_MALFORMED_MESSAGE'') s"
| "processLine opts s (Message rid m) =
     (if rid \<noteq> opt_requestId opts then
        finishReject (queue_failure QueueProtocolError
          ''Queue owner sent malformed message'' ''QUEUE_PROTOCOL_MALFORMED_MESSAGE'') s
      else case m of
        Accepted \<Rightarrow>
          (let s' = call (SetContext (opt_sessionId opts) rid ''prompt'')
                      (s\<lparr>acknowledged := True\<rparr>)
           in if \<not> waitForCompletion opts then finishResolve (queued_result opts) s' else s')
      | ErrorMessage e \<Rightarrow>
          finishReject (owner_failure opts e)
            (call Flush (call (OnError (shown_error e))
               (call (SetContext (opt_sessionId opts) rid ''prompt'') s)))
      | other \<Rightarrow>
          if \<not> acknowledged s then
            finishReject (queue_failure QueueConnectionError
              ''Queue owner did not acknowledge request'' ''QUEUE_ACK_MISSING'') s
          else after_ack opts s other)"

text \<open>The \<open>close\<close> listener.\<close>

definition onClose :: "submit_options \<Rightarrow> submit_state \<Rightarrow> submit_state" where
  "onClose opts s =
     (if settled s then s
      else if \<not> acknowledged s then
        finishReject (queue_failure QueueConnectionError
          ''Queue owner disconnected before acknowledging request''
          ''QUEUE_DISCONNECTED_BEFORE_ACK'') s
      else if \<not> waitForCompletion opts then finishResolve (queued_result opts) s
      else
        finishReject (queue_failure QueueConnectionError
          ''Queue owner disconnected before prompt completion''
          ''QUEUE_DISCONNECTED_BEFORE_COMPLETION'') s)"

text \<open>
  The socket's events.  \<open>Data ls\<close> is one \<open>data\<close> event whose chunk completes the
  lines \<open>ls\<close> (those that are not empty after \<open>trim\<close>): the listener's loop hands every
  one of them to \<open>processLine\<close>, also after the promise has settled.  Settling removes
  all listeners, so a settled promise sees no further event.
\<close>

datatype socket_event = Data "line list" | SocketError string | Close

definition processLines :: "submit_options \<Rightarrow> submit_state \<Rightarrow> line list \<Rightarrow> submit_state" where
  "processLines opts s ls = foldl (processLine opts) s ls"

fun socket_step :: "submit_options \<Rightarrow> submit_state \<Rightarrow> socket_event \<Rightarrow> submit_state" where
  "socket_step opts s (Data ls) = (if settled s then s else processLines opts s ls)"
| "socket_step opts s (SocketError text) =
     (if settled s then s
      else finishReject
        \<lparr>errorClass = SocketFailure, message = text, outputCode = None, detailCode = None,
         origin = None, retryable = None, acp = None, outputAlreadyEmitted = False\<rparr> s)"
| "socket_step opts s Close = onClose opts s"

definition submitToQueueOwner :: "submit_options \<Rightarrow> socket_event list \<Rightarrow> submit_state" where
  "submitToQueueOwner opts evs = foldl (socket_step opts) (initial_submit opts) evs"

text \<open>Counting: the \<open>done\<close> messages among lines, the \<open>onDone\<close> calls among calls.\<close>

fun is_done :: "line \<Rightarrow> bool" where
  "is_done (Message rid (Done reason)) = True"
| "is_done l = False"

fun is_onDone :: "formatter_call \<Rightarrow> bool" where
  "is_onDone (OnDone reason) = True"
| "is_onDone c = False"

definition done_messages :: "line list \<Rightarrow> nat" where
  "done_messages ls = length (filter is_done ls)"

definition onDone_calls :: "submit_state \<Rightarrow> nat" where
  "onDone_calls s = length (filter is_onDone (formatter_calls s))"

text \<open>Sample options: a prompt that waits for completion, and one that does not.\<close>

definition waiting_options :: submit_options where
  "waiting_options =
     \<lparr>opt_sessionId = ''s1'', opt_requestId = ''r1'', waitForCompletion = True,
      queueErrorAlreadyEmitted = None\<rparr>"


definition end_turn_result :: prompt_result where
  "end_turn_result = \<lparr>stopReason = ''end_turn'', resultRest = ''''\<rparr>"


definition resolved_with :: "submit_state \<Rightarrow> SessionSendOutcome \<Rightarrow> bool" where
  "resolved_with s r = (settlement s = Some (Inr r))"

text \<open>
  \<open>received opts ls\<close> is the state after the lines \<open>ls\<close> have arrived, and
  \<open>on_result opts ls result\<close> the state after a \<open>result\<close> message of this request
  has arrived behind them.
\<close>

definition received :: "submit_options \<Rightarrow> line list \<Rightarrow> submit_state" where
  "received opts ls = processLines opts (initial_submit opts) ls"

definition on_result :: "submit_options \<Rightarrow> line list \<Rightarrow> prompt_result \<Rightarrow> submit_state" where
  "on_result opts ls result =
     processLine opts (received opts ls) (Message (opt_requestId opts) (Result result))"

section \<open>Spawn or attach (queue-ipc-client.ts, session-owner-spawn.ts)\<close>

text \<open>
  \<open>trySubmitToRunningOwner\<close> reads the lease record, asks twice whether the owner is
  usable and submits in between.  The lease store (\<open>queue-lease-store.ts\<close>) is not among
  the sources, so what it answers during one call is a parameter, and so is what
  \<open>submitToQueueOwner\<close> comes to: \<open>Inl\<close> a rejection, \<open>Inr None\<close> for \<open>undefined\<close> (no
  socket), \<open>Inr (Some outcome)\<close>.
\<close>

record try_world =
  ownerRecord :: bool
  usableBefore :: bool
  submitted :: "queue_error + SessionSendOutcome option"
  usableAfter :: bool

definition trySubmitToRunningOwner :: "try_world \<Rightarrow> queue_error + SessionSendOutcome option" where
  "trySubmitToRunningOwner w =
     (if \<not> ownerRecord w then Inr None
      else if \<not> usableBefore w then Inr None
      else case submitted w of
             Inl error \<Rightarrow> Inl error
           | Inr (Some outcome) \<Rightarrow> Inr (Some outcome)
           | Inr None \<Rightarrow>
               if \<not> usableAfter w then Inr None
               else Inl (queue_failure QueueConnectionError
                      ''Session queue owner is running but not accepting queue requests''
                      ''QUEUE_NOT_ACCEPTING_REQUESTS''))"

definition QUEUE_OWNER_STARTUP_TIMEOUT_MS :: int where
  "QUEUE_OWNER_STARTUP_TIMEOUT_MS = 10000"

definition QUEUE_OWNER_RESPAWN_BACKOFF_MS :: int where
  "QUEUE_OWNER_RESPAWN_BACKOFF_MS = 250"

definition isQueueNotAcceptingError :: "queue_error \<Rightarrow> bool" where
  "isQueueNotAcceptingError error =
     (errorClass error = QueueConnectionError
      \<and> detailCode error = Some ''QUEUE_NOT_ACCEPTING_REQUESTS'')"

text \<open>
  Time is the millisecond clock that \<open>Date.now()\<close> reads.  The world of the loop gives,
  for the \<open>i\<close>-th call of \<open>trySubmitToRunningOwner\<close>, what the call meets and how many
  milliseconds pass between the clock reading before it and the one after it.
  \<open>waitMs(50)\<close> moves the clock by 50; a timer that fires late is time that the next
  call takes.
\<close>

record spawn_world =
  attempt_world :: "nat \<Rightarrow> try_world"
  attempt_ms :: "nat \<Rightarrow> nat"

text \<open>
  What the loop did: the calls of \<open>trySubmitToRunningOwner\<close>, the clock readings at
  which \<open>spawnDetachedQueueOwner\<close> was called, and the argument of every \<open>waitMs\<close>.
\<close>

record spawn_trace =
  tries :: nat
  spawnedAt :: "int list"
  slept :: "nat list"

definition no_spawn_trace :: spawn_trace where
  "no_spawn_trace = \<lparr>tries = 0, spawnedAt = [], slept = []\<rparr>"

definition startup_timeout :: "string \<Rightarrow> queue_error" where
  "startup_timeout text =
     queue_failure QueueConnectionError text ''QUEUE_NOT_ACCEPTING_REQUESTS''"

text \<open>
  The body of \<open>for (;;)\<close>.  \<open>clock\<close> is the time at which the round starts, \<open>now\<close> the
  reading after the call; \<open>lastSpawnAttemptAt\<close> is the source's variable.
\<close>

function sendLoop ::
  "spawn_world \<Rightarrow> int \<Rightarrow> nat \<Rightarrow> int \<Rightarrow> int \<Rightarrow> spawn_trace
     \<Rightarrow> (queue_error + SessionSendOutcome) \<times> spawn_trace" where
  "sendLoop world startupDeadline i clock lastSpawnAttemptAt tr =
     (let now = clock + int (attempt_ms world i);
          tr' = tr\<lparr>tries := tries tr + 1\<rparr>
      in case trySubmitToRunningOwner (attempt_world world i) of
           Inr (Some queuedToOwner) \<Rightarrow> (Inr queuedToOwner, tr')
         | Inl error \<Rightarrow>
             if \<not> isQueueNotAcceptingError error then (Inl error, tr')
             else if now \<ge> startupDeadline then
               (Inl (startup_timeout
                  ''Timed out waiting for detached queue owner to accept prompt requests''), tr')
             else sendLoop world startupDeadline (i + 1)
                    (now + int QUEUE_CONNECT_RETRY_MS) lastSpawnAttemptAt
                    (tr'\<lparr>slept := slept tr' @ [QUEUE_CONNECT_RETRY_MS]\<rparr>)
         | Inr None \<Rightarrow>
             if now \<ge> startupDeadline then
               (Inl (startup_timeout ''Timed out waiting for detached queue owner to start''),
                tr')
             else if now - lastSpawnAttemptAt \<ge> QUEUE_OWNER_RESPAWN_BACKOFF_MS then
               sendLoop world startupDeadline (i + 1) (now + int QUEUE_CONNECT_RETRY_MS) now
                 (tr'\<lparr>spawnedAt := spawnedAt tr' @ [now],
                      slept := slept tr' @ [QUEUE_CONNECT_RETRY_MS]\<rparr>)
             else
               sendLoop world startupDeadline (i + 1) (now + int QUEUE_CONNECT_RETRY_MS)
                 lastSpawnAttemptAt
                 (tr'\<lparr>slept := slept tr' @ [QUEUE_CONNECT_RETRY_MS]\<rparr>))"
  by pat_completeness auto
termination
  by (relation "measure (\<lambda>(world, startupDeadline, i, clock, lastSpawnAttemptAt, tr).
        nat (startupDeadline - clock))")
     (auto simp: QUEUE_CONNECT_RETRY_MS_def)

text \<open>
  What the function needs before the loop: the spawn configuration.  It is
  \<open>options.queueOwnerSpawn\<close> if the caller gave one, and otherwise what
  \<open>buildDefaultQueueOwnerSpawn\<close> builds, which throws if \<open>process.argv[1]\<close> is missing
  (or empty: \<open>!entrypoint\<close>) and rejects if \<open>resolveSessionRecord\<close> does.  That function
  and \<open>absolutePath\<close> belong to \<open>session-persistence.ts\<close>, which is not among the
  sources: they are parameters, and of the session record only \<open>cwd\<close> is read.  The
  arguments are kept as the pieces the source pushes; a number stands for the text that
  \<open>String(...)\<close> makes of it.  An optional string or boolean option counts when it is
  truthy.  The options the function reads carry the prefix \<open>send_\<close> here.
\<close>

datatype spawn_arg = Arg string | NumberArg int

record QueueOwnerSpawnConfig =
  command :: string
  args :: "spawn_arg list"
  cwd :: "string option"

record SendViaDetachedQueueOwnerOptions =
  send_sessionId :: string
  send_permissionMode :: string
  send_nonInteractivePermissions :: "string option"
  send_authPolicy :: "string option"
  send_timeoutMs :: "jsnum option"
  send_verbose :: "bool option"
  send_suppressSdkConsoleErrors :: "bool option"
  send_ttlMs :: "jsnum option"
  queueOwnerSpawn :: "QueueOwnerSpawnConfig option"

record spawn_env =
  entrypoint :: "string option"
  execPath :: string
  resolveSessionRecord :: "string \<Rightarrow> string + string"
  absolutePath :: "string \<Rightarrow> string"

definition truthy_string :: "string option \<Rightarrow> bool" where
  "truthy_string x = (case x of Some v \<Rightarrow> v \<noteq> [] | None \<Rightarrow> False)"

definition given :: "string option \<Rightarrow> string" where
  "given x = (case x of Some v \<Rightarrow> v | None \<Rightarrow> [])"

definition truthy_flag :: "bool option \<Rightarrow> bool" where
  "truthy_flag x = (case x of Some v \<Rightarrow> v | None \<Rightarrow> False)"

fun timeout_args :: "jsnum option \<Rightarrow> spawn_arg list" where
  "timeout_args (Some (Finite x)) =
     (if x > 0 then [Arg ''--timeout-ms'', NumberArg (Math_round x)] else [])"
| "timeout_args other = []"

definition buildDefaultQueueOwnerSpawn ::
  "SendViaDetachedQueueOwnerOptions \<Rightarrow> int \<Rightarrow> spawn_env \<Rightarrow> string + QueueOwnerSpawnConfig" where
  "buildDefaultQueueOwnerSpawn options queueOwnerTtlMs env =
     (if \<not> truthy_string (entrypoint env)
      then Inl ''Cannot spawn queue owner process: CLI entrypoint is missing''
      else case resolveSessionRecord env (send_sessionId options) of
             Inl error \<Rightarrow> Inl error
           | Inr record_cwd \<Rightarrow>
               Inr \<lparr>command = execPath env,
                    args = [Arg (given (entrypoint env)), Arg ''__queue-owner'',
                            Arg ''--session-id'', Arg (send_sessionId options),
                            Arg ''--ttl-ms'', NumberArg queueOwnerTtlMs,
                            Arg ''--permission-mode'', Arg (send_permissionMode options)]
                      @ (if truthy_string (send_nonInteractivePermissions options)
                         then [Arg ''--non-interactive-permissions'',
                               Arg (given (send_nonInteractivePermissions options))] else [])
                      @ (if truthy_string (send_authPolicy options)
                         then [Arg ''--auth-policy'', Arg (given (send_authPolicy options))] else [])
                      @ timeout_args (send_timeoutMs options)
                      @ (if truthy_flag (send_verbose options) then [Arg ''--verbose''] else [])
                      @ (if truthy_flag (send_suppressSdkConsoleErrors options)
                         then [Arg ''--suppress-sdk-console-errors''] else []),
                    cwd = Some (absolutePath env record_cwd)\<rparr>)"

definition ownerSpawn ::
  "SendViaDetachedQueueOwnerOptions \<Rightarrow> spawn_env \<Rightarrow> string + QueueOwnerSpawnConfig" where
  "ownerSpawn options env =
     (case queueOwnerSpawn options of
        Some config \<Rightarrow> Inr config
      | None \<Rightarrow>
          buildDefaultQueueOwnerSpawn options (normalizeQueueOwnerTtlMs (send_ttlMs options)) env)"

text \<open>
  What the promise of \<open>sendViaDetachedQueueOwner\<close> rejects with: the plain \<open>Error\<close> of
  the spawn configuration, or an error of the queue client or of the loop itself.
\<close>

datatype thrown = PlainError string | QueueError queue_error

text \<open>
  \<open>sendViaDetachedQueueOwner\<close>: if the spawn configuration cannot be had, the function
  rejects before it reads the clock or calls \<open>trySubmitToRunningOwner\<close>.  Otherwise \<open>t0\<close>
  is the reading of \<open>Date.now()\<close> that sets the deadline,
  \<open>Date.now() + QUEUE_OWNER_STARTUP_TIMEOUT_MS\<close>, \<open>lastSpawnAttemptAt\<close> starts at 0, and
  the loop runs; every spawn is of that one configuration, which plays no part in what
  the loop does next.
\<close>

definition sendViaDetachedQueueOwner ::
  "SendViaDetachedQueueOwnerOptions \<Rightarrow> spawn_env \<Rightarrow> spawn_world \<Rightarrow> int
     \<Rightarrow> (thrown + SessionSendOutcome) \<times> spawn_trace" where
  "sendViaDetachedQueueOwner options env world t0 =
     (case ownerSpawn options env of
        Inl error \<Rightarrow> (Inl (PlainError error), no_spawn_trace)
      | Inr config \<Rightarrow>
          (case sendLoop world (t0 + QUEUE_OWNER_STARTUP_TIMEOUT_MS) 0 t0 0 no_spawn_trace of
             (Inl error, tr) \<Rightarrow> (Inl (QueueError error), tr)
           | (Inr outcome, tr) \<Rightarrow> (Inr outcome, tr)))"

text \<open>\<open>spaced xs\<close>: neighbours in \<open>xs\<close> are at least the respawn backoff apart.\<close>

fun spaced :: "int list \<Rightarrow> bool" where
  "spaced (a # b # xs) = (b - a \<ge> QUEUE_OWNER_RESPAWN_BACKOFF_MS \<and> spaced (b # xs))"
| "spaced xs = True"

text \<open>
  A sample world: no owner for the first six calls, each taking no measurable time;
  the seventh call finds the spawned owner and queues the prompt.
\<close>

definition no_owner :: try_world where
  "no_owner = \<lparr>ownerRecord = False, usableBefore = False, submitted = Inr None,
               usableAfter = False\<rparr>"

definition owner_queues :: try_world where
  "owner_queues =
     \<lparr>ownerRecord = True, usableBefore = True,
      submitted = Inr (Some (EnqueueResult \<lparr>queued = True, sessionId = ''s1'', requestId = ''r1''\<rparr>)),
      usableAfter = True\<rparr>"

definition owner_after_six :: spawn_world where
  "owner_after_six =
     \<lparr>attempt_world = (\<lambda>i. if i < 6 then no_owner else owner_queues),
      attempt_ms = (\<lambda>i. 0)\<rparr>"

text \<open>
  Sample callers: one that brings its own spawn configuration, and one that leaves it
  to \<open>buildDefaultQueueOwnerSpawn\<close> in a process without \<open>argv[1]\<close>.
\<close>

definition own_spawn_options :: SendViaDetachedQueueOwnerOptions where
  "own_spawn_options =
     \<lparr>send_sessionId = ''s1'', send_permissionMode = ''approve-reads'',
      send_nonInteractivePermissions = None, send_authPolicy = None, send_timeoutMs = None, send_verbose = None,
      send_suppressSdkConsoleErrors = None, send_ttlMs = None,
      queueOwnerSpawn = Some \<lparr>command = ''node'', args = [Arg ''acpx'', Arg ''__queue-owner''],
                                cwd = None\<rparr>\<rparr>"

definition default_spawn_options :: SendViaDetachedQueueOwnerOptions where
  "default_spawn_options = own_spawn_options\<lparr>queueOwnerSpawn := None\<rparr>"

definition no_entrypoint :: spawn_env where
  "no_entrypoint =
     \<lparr>entrypoint = None, execPath = ''node'', resolveSessionRecord = (\<lambda>sessionId. Inr ''.''),
      absolutePath = (\<lambda>p. p)\<rparr>"

definition cli_process :: spawn_env where
  "cli_process = no_entrypoint\<lparr>entrypoint := Some ''acpx''\<rparr>"

text \<open>
  Names for the steps of one round: the clock reading after the call, and the trace
  after the call, after a \<open>waitMs\<close> and after a spawn.
\<close>

definition reading :: "spawn_world \<Rightarrow> nat \<Rightarrow> int \<Rightarrow> int" where
  "reading world i clock = clock + int (attempt_ms world i)"

definition tried :: "spawn_trace \<Rightarrow> spawn_trace" where
  "tried tr = tr\<lparr>tries := tries tr + 1\<rparr>"

definition sleeping :: "spawn_trace \<Rightarrow> spawn_trace" where
  "sleeping tr = tr\<lparr>slept := slept tr @ [QUEUE_CONNECT_RETRY_MS]\<rparr>"

definition spawning :: "int \<Rightarrow> spawn_trace \<Rightarrow> spawn_trace" where
  "spawning now tr = tr\<lparr>spawnedAt := spawnedAt tr @ [now]\<rparr>"

text \<open>
  \<open>ended world t0 k\<close>: the clock reading at which the call number \<open>k\<close> of
  \<open>trySubmitToRunningOwner\<close> ends, if the loop started at \<open>t0\<close> gets that far: every call
  takes its time and a sleep of 50 ms lies between two calls.
\<close>

fun ended :: "spawn_world \<Rightarrow> int \<Rightarrow> nat \<Rightarrow> int" where
  "ended world t0 0 = t0 + int (attempt_ms world 0)"
| "ended world t0 (Suc k) = ended world t0 k + 50 + int (attempt_ms world (Suc k))"

text \<open>
  \<open>round_result world d k now\<close>: what the round of call number \<open>k\<close> settles the promise
  to, when the call ends at clock reading \<open>now\<close> and the deadline is \<open>d\<close>; \<open>None\<close> if the
  loop goes round again.
\<close>

definition round_result ::
  "spawn_world \<Rightarrow> int \<Rightarrow> nat \<Rightarrow> int \<Rightarrow> (queue_error + SessionSendOutcome) option" where
  "round_result world d k now =
     (case trySubmitToRunningOwner (attempt_world world k) of
        Inr (Some outcome) \<Rightarrow> Some (Inr outcome)
      | Inl error \<Rightarrow>
          if \<not> isQueueNotAcceptingError error then Some (Inl error)
          else if d \<le> now then
            Some (Inl (startup_timeout
              ''Timed out waiting for detached queue owner to accept prompt requests''))
          else None
      | Inr None \<Rightarrow>
          if d \<le> now then
            Some (Inl (startup_timeout ''Timed out waiting for detached queue owner to start''))
          else None)"

text \<open>\<open>settled_as r\<close>: the loop's result \<open>r\<close> as the function passes it on.\<close>

definition settled_as ::
  "queue_error + SessionSendOutcome \<Rightarrow> thrown + SessionSendOutcome" where
  "settled_as r = (case r of Inl error \<Rightarrow> Inl (QueueError error) | Inr outcome \<Rightarrow> Inr outcome)"

section \<open>The output formatters (output.ts)\<close>



record plan_entry =
  entry_content :: string
  entry_status :: string
  entry_priority :: string

























section \<open>The lease store (queue-lease-store.ts)\<close>

text \<open>
  Modelled from the spec: the lease store \<open>queue-lease-store.ts\<close> is not among the
  sources; \<open>session-owner-runtime.ts\<close> only calls \<open>tryAcquireQueueOwnerLease\<close>.  The
  definitions of this section follow the spec's section 4.A and its data model.  A
  lease is the spec's \<open>QueueOwnerLease\<close>, of which acquisition reads the \<open>sessionId\<close> and
  the \<open>pid\<close>; the socket path, the two times and the queue depth play no part in it and
  are left out.
\<close>

record QueueOwnerLease =
  lease_sessionId :: string
  lease_pid :: nat

text \<open>
  Modelled from the spec: how far one call of \<open>tryAcquire\<close> has come.  The spec gives the
  call these steps, each one operation on the lock file: ``an atomic exclusive-create of
  the lock file (fails if it exists)''; then, ``if the file exists and its recorded
  \<open>pid\<close> is not alive'', the probe of what the file records; then ``unlinking''; then
  ``retrying once'', the second exclusive-create.  \<open>Acquired\<close> is a call that has
  returned its lease; \<open>Failed\<close> is a call that has returned nothing (``acquisition fails
  and the caller becomes a client''), with the lease it observed.
\<close>

datatype acquire_stage =
    AtCreate
  | AtProbe
  | AtUnlink
  | AtRetry
  | Acquired QueueOwnerLease
  | Failed "QueueOwnerLease option"

text \<open>
  Modelled from the spec: the lock file of one SessionKey, \<open>None\<close> when there is no file
  and otherwise the lease it records, and the calls of \<open>tryAcquire\<close> under way, one for
  each calling process, by \<open>pid\<close>.
\<close>

record lease_store =
  lockFile :: "QueueOwnerLease option"
  stage_of :: "nat \<Rightarrow> acquire_stage"


definition at_stage :: "nat \<Rightarrow> acquire_stage \<Rightarrow> lease_store \<Rightarrow> lease_store" where
  "at_stage p st s = s\<lparr>stage_of := (stage_of s)(p := st)\<rparr>"












section \<open>Time-to-live normalisation and the end of the main loop\<close>

lemma normalize_nonneg: "0 \<le> normalizeQueueOwnerTtlMs t"
proof (cases t)
  case None
  then show ?thesis by (simp add: DEFAULT_QUEUE_OWNER_TTL_MS_def)
next
  case (Some n)
  then show ?thesis
    by (cases n) (auto simp: DEFAULT_QUEUE_OWNER_TTL_MS_def Math_round_def)
qed

lemma Math_round_near: "\<bar>of_int (Math_round x) - x\<bar> \<le> 1 / 2"
  unfolding Math_round_def by linarith

lemma mainLoop_not_waiting: "fst (mainLoop s (queue @ NextTask None # rest)) \<noteq> Waiting"
  by (induction s queue rule: mainLoop.induct) (auto split: prod.splits sum.splits)

lemma mainLoop_ignores_rest:
  "mainLoop s (queue @ NextTask None # rest) = mainLoop s (queue @ NextTask None # rest')"
  by (induction s queue rule: mainLoop.induct) (auto split: prod.splits sum.splits)

text \<open>
  Claim C7.  \<open>normalizeQueueOwnerTtlMs\<close> gives the default of 300000 ms for a missing
  value, for NaN, for both infinities and for every negative number; every other value
  is rounded to the nearest integer (at most one half away), so 0 stays 0.  For 0 the
  idle wait handed to \<open>nextTask\<close> is \<open>undefined\<close>, a wait without bound; for any other
  time-to-live it is that time-to-live.  In the main loop a null task ends the loop:
  an owner process whose first \<open>nextTask\<close> resolves to nothing has normalised its
  time-to-live, handed the idle wait to \<open>nextTask\<close> and left the loop by \<open>break\<close>;
  the loop breaks at once on a null task, and after any queue that holds one the loop
  has ended (it is not waiting) and has taken nothing that was queued behind the null
  task.  This holds for every time-to-live, so for a positive one.
\<close>

theorem normalizeQueueOwnerTtlMs_spec:
  "normalizeQueueOwnerTtlMs None = 300000
   \<and> normalizeQueueOwnerTtlMs (Some NaN) = 300000
   \<and> normalizeQueueOwnerTtlMs (Some PosInfinity) = 300000
   \<and> normalizeQueueOwnerTtlMs (Some NegInfinity) = 300000
   \<and> normalizeQueueOwnerTtlMs (Some (Finite x)) = (if x < 0 then 300000 else Math_round x)
   \<and> \<bar>of_int (Math_round x) - x\<bar> \<le> 1 / 2
   \<and> normalizeQueueOwnerTtlMs (Some (Finite 0)) = 0
   \<and> idleWaitMs (normalizeQueueOwnerTtlMs (Some (Finite 0))) = None
   \<and> idleWaitMs ttl = (if ttl = 0 then None else Some (max 0 ttl))
   \<and> map_option (\<lambda>(queueOwnerTtlMs, wait, e, s, seen). (queueOwnerTtlMs, wait, e))
         (runQueueOwnerProcess ttlMs True (NextTask None # rest))
       = Some (normalizeQueueOwnerTtlMs ttlMs, idleWaitMs (normalizeQueueOwnerTtlMs ttlMs),
               Broke)
   \<and> mainLoop s (NextTask None # rest) = (Broke, s, [AtNextTask (lifecycleState s)])
   \<and> mainLoop s (queue @ NextTask None # rest) = mainLoop s (queue @ [NextTask None])
   \<and> fst (mainLoop s (queue @ NextTask None # rest)) \<noteq> Waiting"
proof -
  have "\<lfloor>(1::rat) / 2\<rfloor> = 0" by linarith
  then have "normalizeQueueOwnerTtlMs (Some (Finite 0)) = 0"
    by (simp add: Math_round_def)
  then show ?thesis
    using Math_round_near[of x] mainLoop_not_waiting[of s queue rest]
      mainLoop_ignores_rest[of s queue rest "[]"]
    by (simp add: DEFAULT_QUEUE_OWNER_TTL_MS_def idleWaitMs_def runQueueOwnerProcess_def
        newTurnController_def Let_def)
qed

theorem normalizeQueueOwnerTtlMs_spec_witness:
  "normalizeQueueOwnerTtlMs (Some (Finite (2501 / 2))) = 1251
   \<and> idleWaitMs 500 = Some 500
   \<and> mainLoop newTurnController [NextTask None, NextTask (Some \<lparr>events = [], rejection = None\<rparr>)]
       = (Broke, newTurnController, [AtNextTask Idle])"
proof -
  have "\<lfloor>(2501::rat) / 2 + 1 / 2\<rfloor> = 1251" by linarith
  then show ?thesis
    using normalizeQueueOwnerTtlMs_spec[of "2501 / 2" 500 "Some (Finite 500)"
        "[NextTask (Some \<lparr>events = [], rejection = None\<rparr>)]" newTurnController "[]"]
    by (simp add: Math_round_def newTurnController_def)
qed

section \<open>The connection procedure is a bounded retry\<close>

declare connectLoop.simps [simp del]

lemma connectLoop_exhausted:
  "\<not> a < QUEUE_CONNECT_ATTEMPTS \<Longrightarrow>
   connectLoop env a l tr =
     (case l of
        Some error \<Rightarrow> if \<not> shouldRetryQueueConnect error then (Inl error, tr) else (Inr None, tr)
      | None \<Rightarrow> (Inr None, tr))"
  by (subst connectLoop.simps) simp

lemma connectLoop_socket:
  "a < QUEUE_CONNECT_ATTEMPTS \<Longrightarrow> connectToSocket env a = Inr s \<Longrightarrow>
   connectLoop env a l tr = (Inr (Some s), tr\<lparr>attempts := attempts tr + 1\<rparr>)"
  by (subst connectLoop.simps) simp

lemma connectLoop_rethrow:
  "a < QUEUE_CONNECT_ATTEMPTS \<Longrightarrow> connectToSocket env a = Inl e \<Longrightarrow>
   \<not> shouldRetryQueueConnect e \<Longrightarrow>
   connectLoop env a l tr = (Inl e, tr\<lparr>attempts := attempts tr + 1\<rparr>)"
  by (subst connectLoop.simps) simp

lemma connectLoop_dead:
  "a < QUEUE_CONNECT_ATTEMPTS \<Longrightarrow> connectToSocket env a = Inl e \<Longrightarrow>
   shouldRetryQueueConnect e \<Longrightarrow> \<not> isProcessAlive env a \<Longrightarrow>
   connectLoop env a l tr = (Inr None, tr\<lparr>attempts := attempts tr + 1\<rparr>)"
  by (subst connectLoop.simps) simp

lemma connectLoop_again:
  "a < QUEUE_CONNECT_ATTEMPTS \<Longrightarrow> connectToSocket env a = Inl e \<Longrightarrow>
   shouldRetryQueueConnect e \<Longrightarrow> isProcessAlive env a \<Longrightarrow>
   connectLoop env a l tr =
     connectLoop env (a + 1) (Some e)
       (tr\<lparr>attempts := attempts tr + 1, waits := waits tr @ [QUEUE_CONNECT_RETRY_MS]\<rparr>)"
  by (subst connectLoop.simps) (simp add: Let_def)

text \<open>The five ways one round of the loop can go.\<close>

lemma connectLoop_round:
  obtains (exhausted) "\<not> a < QUEUE_CONNECT_ATTEMPTS"
  | (socket) s where "a < QUEUE_CONNECT_ATTEMPTS" "connectToSocket env a = Inr s"
  | (rethrow) e where "a < QUEUE_CONNECT_ATTEMPTS" "connectToSocket env a = Inl e"
      "\<not> shouldRetryQueueConnect e"
  | (dead) e where "a < QUEUE_CONNECT_ATTEMPTS" "connectToSocket env a = Inl e"
      "shouldRetryQueueConnect e" "\<not> isProcessAlive env a"
  | (again) e where "a < QUEUE_CONNECT_ATTEMPTS" "connectToSocket env a = Inl e"
      "shouldRetryQueueConnect e" "isProcessAlive env a"
  by (cases "connectToSocket env a") blast+

lemma retried_le: "retried env \<le> QUEUE_CONNECT_ATTEMPTS"
  unfolding retried_def
  using length_takeWhile_le[of "retry_at env" "[0..<QUEUE_CONNECT_ATTEMPTS]"]
  by simp

lemma retried_before: "j < retried env \<Longrightarrow> retry_at env j"
proof -
  assume j: "j < retried env"
  let ?xs = "[0..<QUEUE_CONNECT_ATTEMPTS]"
  from j have "takeWhile (retry_at env) ?xs ! j \<in> set (takeWhile (retry_at env) ?xs)"
    by (simp add: retried_def)
  moreover from j have "takeWhile (retry_at env) ?xs ! j = ?xs ! j"
    by (simp add: retried_def takeWhile_nth)
  moreover from j retried_le[of env] have "?xs ! j = j" by simp
  ultimately show ?thesis by (auto dest: set_takeWhileD)
qed

lemma retried_stop: "retried env < QUEUE_CONNECT_ATTEMPTS \<Longrightarrow> \<not> retry_at env (retried env)"
  using nth_length_takeWhile[of "retry_at env" "[0..<QUEUE_CONNECT_ATTEMPTS]"]
  by (simp add: retried_def)

lemma retry_atE:
  assumes "retry_at env j"
  obtains e where "connectToSocket env j = Inl e" "shouldRetryQueueConnect e"
    "isProcessAlive env j"
  using assms by (auto simp: retry_at_def split: sum.splits)

text \<open>
  As long as every call so far was retried, the loop has reached round \<open>k\<close> with \<open>k\<close>
  calls and \<open>k\<close> waits behind it, and \<open>lastError\<close> is unset or a retryable error: the
  check after the loop never throws.
\<close>

lemma connectLoop_skip:
  "k \<le> QUEUE_CONNECT_ATTEMPTS \<Longrightarrow> (\<And>j. j < k \<Longrightarrow> retry_at env j) \<Longrightarrow>
   \<exists>l. (l = None \<or> (\<exists>e. l = Some e \<and> shouldRetryQueueConnect e)) \<and>
       connectLoop env 0 None no_trace = connectLoop env k l (trace_of k k)"
proof (induction k)
  case 0
  then show ?case by (auto simp: trace_of_def no_trace_def)
next
  case (Suc k)
  then obtain l where l: "connectLoop env 0 None no_trace = connectLoop env k l (trace_of k k)"
    by auto
  from Suc.prems have "retry_at env k" by simp
  then obtain e where e: "connectToSocket env k = Inl e" "shouldRetryQueueConnect e"
    "isProcessAlive env k" by (rule retry_atE)
  from Suc.prems have "k < QUEUE_CONNECT_ATTEMPTS" by simp
  from connectLoop_again[OF this e, of l "trace_of k k"]
  have "connectLoop env k l (trace_of k k) =
        connectLoop env (Suc k) (Some e) (trace_of (Suc k) (Suc k))"
    by (simp add: trace_of_def replicate_append_same)
  with l e show ?case by auto
qed

lemma connectToQueueOwner_eq:
  "connectToQueueOwner env =
     (let k = retried env in
      if k = QUEUE_CONNECT_ATTEMPTS then (Inr None, trace_of k k)
      else (case connectToSocket env k of
              Inr socket \<Rightarrow> (Inr (Some socket), trace_of (k + 1) k)
            | Inl error \<Rightarrow>
                if shouldRetryQueueConnect error then (Inr None, trace_of (k + 1) k)
                else (Inl error, trace_of (k + 1) k)))"
proof -
  let ?k = "retried env"
  from connectLoop_skip[OF retried_le, of env] retried_before[of _ env]
  obtain l where l: "l = None \<or> (\<exists>e. l = Some e \<and> shouldRetryQueueConnect e)"
    and eq: "connectLoop env 0 None no_trace = connectLoop env ?k l (trace_of ?k ?k)"
    by blast
  show ?thesis
  proof (cases "?k = QUEUE_CONNECT_ATTEMPTS")
    case True
    with l eq show ?thesis
      by (auto simp: connectToQueueOwner_def connectLoop_exhausted Let_def)
  next
    case False
    with retried_le[of env] have lt: "?k < QUEUE_CONNECT_ATTEMPTS" by simp
    then have stop: "\<not> retry_at env ?k" by (rule retried_stop)
    show ?thesis
    proof (cases rule: connectLoop_round[where a="?k" and env=env])
      case exhausted
      with lt show ?thesis by simp
    next
      case (socket s)
      with eq False show ?thesis
        by (simp add: connectToQueueOwner_def connectLoop_socket trace_of_def Let_def)
    next
      case (rethrow e)
      with eq False show ?thesis
        by (simp add: connectToQueueOwner_def connectLoop_rethrow trace_of_def Let_def)
    next
      case (dead e)
      with eq False show ?thesis
        by (simp add: connectToQueueOwner_def connectLoop_dead trace_of_def Let_def)
    next
      case (again e)
      with stop show ?thesis by (simp add: retry_at_def)
    qed
  qed
qed

lemma retried_env_late_socket: "retried env_late_socket = 3"
  by (simp add: retried_def QUEUE_CONNECT_ATTEMPTS_def env_late_socket_def retry_at_def
      shouldRetryQueueConnect_def upt_rec)

text \<open>
  Claim C6.  \<open>connectToQueueOwner\<close> calls \<open>connectToSocket\<close> at most 40 times and waits
  50 ms after every call it retries, and after no other.  With \<open>k\<close> the number of
  retried calls (each refused with ENOENT or ECONNREFUSED while the owner's pid was
  alive): if all 40 calls were retried the result is \<open>undefined\<close>; otherwise call \<open>k\<close>
  decides at once: a socket is returned, an error with any other code is rethrown, and
  an ENOENT or ECONNREFUSED error there means the pid was found dead and the result is
  \<open>undefined\<close>.
\<close>

theorem connectToQueueOwner_bounded_retry:
  "attempts (snd (connectToQueueOwner env)) \<le> QUEUE_CONNECT_ATTEMPTS
   \<and> attempts (snd (connectToQueueOwner env)) = min QUEUE_CONNECT_ATTEMPTS (retried env + 1)
   \<and> waits (snd (connectToQueueOwner env)) = replicate (retried env) QUEUE_CONNECT_RETRY_MS
   \<and> (\<forall>j < retried env. \<exists>error. connectToSocket env j = Inl error
          \<and> (code error = Some ''ENOENT'' \<or> code error = Some ''ECONNREFUSED'')
          \<and> isProcessAlive env j)
   \<and> (if retried env = QUEUE_CONNECT_ATTEMPTS then fst (connectToQueueOwner env) = Inr None
      else (case connectToSocket env (retried env) of
              Inr socket \<Rightarrow> fst (connectToQueueOwner env) = Inr (Some socket)
            | Inl error \<Rightarrow>
                if code error = Some ''ENOENT'' \<or> code error = Some ''ECONNREFUSED''
                then \<not> isProcessAlive env (retried env)
                     \<and> fst (connectToQueueOwner env) = Inr None
                else fst (connectToQueueOwner env) = Inl error))"
proof -
  let ?k = "retried env"
  have le: "?k \<le> QUEUE_CONNECT_ATTEMPTS" by (rule retried_le)
  have before: "\<forall>j < ?k. \<exists>error. connectToSocket env j = Inl error
          \<and> (code error = Some ''ENOENT'' \<or> code error = Some ''ECONNREFUSED'')
          \<and> isProcessAlive env j"
  proof (intro allI impI)
    fix j assume "j < ?k"
    then have "retry_at env j" by (rule retried_before)
    then show "\<exists>error. connectToSocket env j = Inl error
          \<and> (code error = Some ''ENOENT'' \<or> code error = Some ''ECONNREFUSED'')
          \<and> isProcessAlive env j"
      by (auto simp: retry_at_def shouldRetryQueueConnect_def split: sum.splits)
  qed
  show ?thesis
  proof (cases "?k = QUEUE_CONNECT_ATTEMPTS")
    case True
    with before show ?thesis
      by (simp add: connectToQueueOwner_eq[of env] Let_def trace_of_def)
  next
    case False
    with le have lt: "?k < QUEUE_CONNECT_ATTEMPTS" by simp
    then have stop: "\<not> retry_at env ?k" by (rule retried_stop)
    show ?thesis
    proof (cases "connectToSocket env ?k")
      case (Inr socket)
      with False lt before show ?thesis
        by (simp add: connectToQueueOwner_eq[of env] Let_def trace_of_def)
    next
      case (Inl error)
      from stop Inl have "shouldRetryQueueConnect error \<Longrightarrow> \<not> isProcessAlive env ?k"
        by (simp add: retry_at_def)
      then have "fst (connectToQueueOwner env) =
          (if shouldRetryQueueConnect error then Inr None else Inl error)
        \<and> (shouldRetryQueueConnect error \<longrightarrow> \<not> isProcessAlive env ?k)"
        using False Inl by (simp add: connectToQueueOwner_eq[of env] Let_def)
      moreover have "snd (connectToQueueOwner env) = trace_of (?k + 1) ?k"
        using False Inl by (simp add: connectToQueueOwner_eq[of env] Let_def)
      ultimately show ?thesis using False lt before Inl
        by (simp add: trace_of_def shouldRetryQueueConnect_def)
    qed
  qed
qed

theorem connectToQueueOwner_bounded_retry_witness:
  "retried env_late_socket = 3
   \<and> fst (connectToQueueOwner env_late_socket) = Inr (Some 7)
   \<and> attempts (snd (connectToQueueOwner env_late_socket)) = 4
   \<and> waits (snd (connectToQueueOwner env_late_socket)) = [50, 50, 50]"
  using connectToQueueOwner_bounded_retry[of env_late_socket] retried_env_late_socket
  by (simp add: QUEUE_CONNECT_ATTEMPTS_def QUEUE_CONNECT_RETRY_MS_def env_late_socket_def
      numeral_3_eq_3)

section \<open>The turn controller and the turn runtime\<close>

lemmas ctrl_defs = beginTurn_def markPromptActive_def endTurn_def beginClosing_def
  setActiveController_def clearActiveController_def deliverCancel_def cancelAnswered_def
  requestCancel_def applyPendingCancel_def
lemmas rt_defs = onClientAvailable_def onClientClosed_def onPromptActive_def cancelPrompt_def

text \<open>
  The three cancel tests of turn-controller.test.ts, run on the model.  The test awaits
  every call, so the adapter's answer has come back (\<open>cancelAnswered\<close>) before it looks
  at the controller.
\<close>

lemma test_lifecycle_states:
  "lifecycleState newTurnController = Idle
   \<and> lifecycleState (beginTurn newTurnController) = Starting
   \<and> lifecycleState (markPromptActive (beginTurn newTurnController)) = Active
   \<and> lifecycleState (endTurn (markPromptActive (beginTurn newTurnController))) = Idle
   \<and> lifecycleState (beginClosing (endTurn (markPromptActive (beginTurn newTurnController)))) = Closing
   \<and> fst (requestCancel (beginClosing (endTurn (markPromptActive (beginTurn newTurnController))))) = False"
  by (simp add: ctrl_defs newTurnController_def)

lemma test_cancels_immediately:
  "fst (requestCancel (markPromptActive (setActiveController willing_adapter (beginTurn newTurnController))))
     = True
   \<and> cancelAnswered (snd (requestCancel
        (markPromptActive (setActiveController willing_adapter (beginTurn newTurnController)))))
     = \<lparr>lifecycleState = Active, hasPendingCancel = False,
        activeController = Some willing_adapter, cancelIssued = True, cancelAnswer = None,
        cancelCalls = 1\<rparr>"
  by (simp add: ctrl_defs newTurnController_def willing_adapter_def)

lemma test_defers_cancel:
  "requestCancel (setActiveController default_adapter (beginTurn newTurnController)) = (True, s1) \<Longrightarrow>
   cancelCalls s1 = 0 \<and> hasPendingCancel s1
   \<and> applyPendingCancel s1 = (False, s1)
   \<and> fst (applyPendingCancel (markPromptActive (s1\<lparr>activeController := Some willing_adapter\<rparr>)))
       = True
   \<and> cancelAnswered (snd (applyPendingCancel
        (markPromptActive (s1\<lparr>activeController := Some willing_adapter\<rparr>))))
      = \<lparr>lifecycleState = Active, hasPendingCancel = False,
         activeController = Some willing_adapter, cancelIssued = True, cancelAnswer = None,
         cancelCalls = 1\<rparr>"
  by (auto simp add: ctrl_defs newTurnController_def willing_adapter_def default_adapter_def)




lemma lifecycle_cancelAnswered [simp]:
  "lifecycleState (cancelAnswered s) = lifecycleState s"
  by (simp add: cancelAnswered_def split: option.splits)

lemma lifecycle_applyPendingCancel [simp]:
  "lifecycleState (snd (applyPendingCancel s)) = lifecycleState s"
  by (simp add: applyPendingCancel_def deliverCancel_def split: option.splits)

lemma lifecycle_requestCancel [simp]:
  "lifecycleState (snd (requestCancel s)) = lifecycleState s"
  by (cases "lifecycleState s"; cases "activeController s")
     (simp_all add: requestCancel_def deliverCancel_def)

lemma lifecycle_cancelPrompt [simp]:
  "lifecycleState (snd (cancelPrompt s)) = lifecycleState s"
proof -
  obtain a s' where r: "requestCancel s = (a, s')" by (cases "requestCancel s") auto
  with lifecycle_requestCancel[of s] have "lifecycleState s' = lifecycleState s" by simp
  with r show ?thesis by (simp add: cancelPrompt_def)
qed

lemma turn_step_in_turn: "in_turn s \<Longrightarrow> in_turn (turn_step s ev)"
  by (cases ev)
     (auto simp: in_turn_def onClientAvailable_def onClientClosed_def onPromptActive_def
       setActiveController_def clearActiveController_def markPromptActive_def)

lemma turn_steps_in_turn: "in_turn s \<Longrightarrow> in_turn (turn_steps s evs)"
  unfolding turn_steps_def
  by (induction evs arbitrary: s) (simp_all add: turn_step_in_turn)

lemma runPromptTurn_unfold:
  "fst (runPromptTurn run s) = fst (run (beginTurn s))
   \<and> snd (runPromptTurn run s) = endTurn (snd (run (beginTurn s)))"
  by (simp add: runPromptTurn_def split: prod.splits sum.splits)

lemma endTurn_in_turn: "in_turn s \<Longrightarrow> lifecycleState (endTurn s) = Idle"
  by (auto simp: in_turn_def endTurn_def)

lemma runPromptTurn_idle:
  assumes "lifecycleState s = Idle"
  shows "lifecycleState (snd (runPromptTurn (runQueuedTask task) s)) = Idle"
proof -
  from assms have "in_turn (beginTurn s)" by (simp add: in_turn_def beginTurn_def)
  then have "in_turn (snd (runQueuedTask task (beginTurn s)))"
    by (simp add: runQueuedTask_def turn_steps_in_turn)
  then show ?thesis by (simp add: runPromptTurn_unfold endTurn_in_turn)
qed

lemma runPromptTurn_started:
  assumes "lifecycleState s = Idle"
  shows "fst (runPromptTurn (runQueuedTask task) s)
     = (case rejection task of Some error \<Rightarrow> Inl (error, Starting) | None \<Rightarrow> Inr Starting)"
  using assms
  by (simp add: runPromptTurn_unfold runQueuedTask_def beginTurn_def split: option.splits)

lemma mainLoop_idle:
  "lifecycleState s = Idle \<Longrightarrow>
   lifecycleState (fst (snd (mainLoop s queue))) = Idle
   \<and> (\<forall>x \<in> set (snd (snd (mainLoop s queue))). x = AtNextTask Idle \<or> x = AtRunQueuedTask Starting)"
proof (induction s queue rule: mainLoop.induct)
  case (1 s)
  then show ?case by simp
next
  case (2 s queue)
  then show ?case by simp
next
  case (3 s queue)
  then show ?case by simp
next
  case (4 s task queue)
  let ?r = "runPromptTurn (runQueuedTask task) s"
  from 4(2) have idle': "lifecycleState (snd ?r) = Idle" by (rule runPromptTurn_idle)
  note started = runPromptTurn_started[OF 4(2), of task]
  obtain s' where s': "snd ?r = s'" by simp
  with idle' have idle: "lifecycleState s' = Idle" by simp
  show ?case
  proof (cases "rejection task")
    case (Some error)
    with started s' have r: "?r = (Inl (error, Starting), s')" by (cases ?r) simp
    have "mainLoop s (NextTask (Some task) # queue)
        = (Threw error, s', [AtNextTask (lifecycleState s), AtRunQueuedTask Starting])"
      by (simp add: r)
    with idle 4(2) show ?thesis by simp
  next
    case None
    with started s' have r: "?r = (Inr Starting, s')" by (cases ?r) simp
    from 4(1)[OF r[symmetric] refl idle]
    have ih: "lifecycleState (fst (snd (mainLoop s' queue))) = Idle"
      "\<forall>x \<in> set (snd (snd (mainLoop s' queue))).
         x = AtNextTask Idle \<or> x = AtRunQueuedTask Starting"
      by simp_all
    obtain e s'' seen where m: "mainLoop s' queue = (e, s'', seen)"
      by (cases "mainLoop s' queue") auto
    have "mainLoop s (NextTask (Some task) # queue)
        = (e, s'', AtNextTask (lifecycleState s) # AtRunQueuedTask Starting # seen)"
      by (simp add: r m)
    with ih m 4(2) show ?thesis by simp
  qed
qed

text \<open>
  Claim C8.  \<open>runPromptTurn\<close> runs its argument on the state \<open>beginTurn\<close> leaves and
  applies \<open>endTurn\<close> to the state the run leaves, whatever the run does and whether it
  resolves or rejects.  Started in state idle, the queued task therefore finds the
  state starting when it begins to run, and after the turn the state is idle again with
  no cancel pending, on success and on failure alike; the failure is passed on.  In the main loop every call
  of \<open>nextTask\<close> is made in state idle and every task starts in state starting, and the
  loop leaves the controller idle.
\<close>

theorem prompt_turn_bracketed:
  "fst (runPromptTurn run s) = fst (run (beginTurn s))
   \<and> snd (runPromptTurn run s) = endTurn (snd (run (beginTurn s)))
   \<and> (lifecycleState s = Idle \<longrightarrow>
        lifecycleState (beginTurn s) = Starting
        \<and> lifecycleState (snd (runPromptTurn (runQueuedTask task) s)) = Idle
        \<and> \<not> hasPendingCancel (snd (runPromptTurn (runQueuedTask task) s))
        \<and> fst (runPromptTurn (runQueuedTask task) s)
            = (case rejection task of
                 Some error \<Rightarrow> Inl (error, Starting)
               | None \<Rightarrow> Inr Starting))
   \<and> lifecycleState (fst (snd (mainLoop newTurnController queue))) = Idle
   \<and> (\<forall>x \<in> set (snd (snd (mainLoop newTurnController queue))).
         x = AtNextTask Idle \<or> x = AtRunQueuedTask Starting)"
proof -
  have "lifecycleState newTurnController = Idle" by (simp add: newTurnController_def)
  note loop = mainLoop_idle[OF this, of queue]
  have turn: "lifecycleState (beginTurn s) = Starting
        \<and> lifecycleState (snd (runPromptTurn (runQueuedTask task) s)) = Idle
        \<and> \<not> hasPendingCancel (snd (runPromptTurn (runQueuedTask task) s))
        \<and> fst (runPromptTurn (runQueuedTask task) s)
            = (case rejection task of
                 Some error \<Rightarrow> Inl (error, Starting)
               | None \<Rightarrow> Inr Starting)"
    if "lifecycleState s = Idle"
  proof -
    have "\<not> hasPendingCancel (snd (runPromptTurn (runQueuedTask task) s))"
      by (simp add: runPromptTurn_unfold endTurn_def)
    moreover from that have "lifecycleState (beginTurn s) = Starting"
      by (simp add: beginTurn_def)
    ultimately show ?thesis
      using runPromptTurn_idle[OF that, of task] runPromptTurn_started[OF that, of task]
      by simp
  qed
  from loop turn runPromptTurn_unfold[of run s] show ?thesis by blast
qed

theorem prompt_turn_bracketed_witness:
  "lifecycleState (snd (runPromptTurn (runQueuedTask failing_task) newTurnController)) = Idle
   \<and> fst (runPromptTurn (runQueuedTask failing_task) newTurnController)
       = Inl (''adapter exited'', Starting)
   \<and> lifecycleState (snd (runPromptTurn (runQueuedTask twice_cancelled_task) newTurnController)) = Idle
   \<and> snd (snd (mainLoop newTurnController
         [NextTask (Some twice_cancelled_task), NextTask (Some failing_task), NextTask None]))
       = [AtNextTask Idle, AtRunQueuedTask Starting, AtNextTask Idle, AtRunQueuedTask Starting]"
  using prompt_turn_bracketed[of "runQueuedTask failing_task" newTurnController failing_task
      "[NextTask (Some twice_cancelled_task), NextTask (Some failing_task), NextTask None]"]
    prompt_turn_bracketed[of "runQueuedTask twice_cancelled_task" newTurnController
      twice_cancelled_task "[]"]
  by (simp add: ctrl_defs rt_defs runPromptTurn_def runQueuedTask_def turn_steps_def
      newTurnController_def failing_task_def twice_cancelled_task_def willing_adapter_def
      default_adapter_def)





lemma cancelAnswered_issue [simp]:
  "cancelIssued (cancelAnswered s) = cancelIssued s"
  "cancelCalls (cancelAnswered s) = cancelCalls s"
  by (simp_all add: cancelAnswered_def split: option.splits)

lemma issue_frame [simp]:
  "cancelIssued (setActiveController c s) = cancelIssued s"
  "cancelCalls (setActiveController c s) = cancelCalls s"
  "cancelIssued (markPromptActive s) = cancelIssued s"
  "cancelCalls (markPromptActive s) = cancelCalls s"
  "cancelIssued (clearActiveController s) = cancelIssued s"
  "cancelCalls (clearActiveController s) = cancelCalls s"
  by (simp_all add: setActiveController_def markPromptActive_def clearActiveController_def)






lemma awaiting_frame [simp]:
  "awaiting_delivery (setActiveController c s) = awaiting_delivery s"
  "awaiting_delivery (clearActiveController s) = awaiting_delivery s"
  "awaiting_delivery (markPromptActive s) = awaiting_delivery s"
  "awaiting_delivery (s\<lparr>activeController := x\<rparr>) = awaiting_delivery s"
  by (simp_all add: awaiting_delivery_def setActiveController_def clearActiveController_def
      markPromptActive_def)

lemma prompt_in_flight_frame [simp]:
  "prompt_in_flight (setActiveController c s) = hasActivePrompt c"
  "prompt_in_flight (markPromptActive s) = prompt_in_flight s"
  by (simp_all add: prompt_in_flight_def setActiveController_def markPromptActive_def)







section \<open>The queue client: disconnection, and the done notification\<close>

lemmas settle_defs = finishResolve_def finishReject_def call_def queue_failure_def

lemma settled_processLine: "settled s \<Longrightarrow> settled (processLine opts s l)"
proof (cases l)
  case (Message rid m)
  assume "settled s"
  then show ?thesis using Message
    by (cases m) (simp_all add: settle_defs Let_def)
qed (simp_all add: settle_defs)

lemma settled_processLines: "settled s \<Longrightarrow> settled (processLines opts s ls)"
  unfolding processLines_def
  by (induction ls arbitrary: s) (simp_all add: settled_processLine)

lemma processLines_snoc:
  "processLines opts s (ls @ [l]) = processLine opts (processLines opts s ls) l"
  by (simp add: processLines_def)

lemma pending_processLine:
  assumes "\<not> settled (processLine opts s l)"
  shows "acknowledged (processLine opts s l)
    \<and> onDone_calls (processLine opts s l) = onDone_calls s + (if is_done l then 1 else 0)
    \<and> sawDone (processLine opts s l) = (sawDone s \<or> is_done l)"
proof (cases l)
  case InvalidJson
  with assms show ?thesis by (auto simp: settle_defs split: if_splits)
next
  case NotAMessage
  with assms show ?thesis by (auto simp: settle_defs split: if_splits)
next
  case (Message rid m)
  with assms show ?thesis
    by (cases m) (auto simp: settle_defs onDone_calls_def Let_def split: if_splits)
qed

lemma pending_first_line:
  assumes "\<not> settled (processLine opts s l)" "\<not> acknowledged s"
  shows "waitForCompletion opts"
proof (cases l)
  case InvalidJson
  with assms show ?thesis by (auto simp: settle_defs split: if_splits)
next
  case NotAMessage
  with assms show ?thesis by (auto simp: settle_defs split: if_splits)
next
  case (Message rid m)
  with assms show ?thesis
    by (cases m) (auto simp: settle_defs Let_def split: if_splits)
qed

lemma pending_processLines:
  "\<not> settled (processLines opts (initial_submit opts) ls) \<Longrightarrow>
   onDone_calls (processLines opts (initial_submit opts) ls) = done_messages ls
   \<and> sawDone (processLines opts (initial_submit opts) ls) = (0 < done_messages ls)
   \<and> (ls \<noteq> [] \<longrightarrow> acknowledged (processLines opts (initial_submit opts) ls)
        \<and> waitForCompletion opts)"
proof (induction ls rule: rev_induct)
  case Nil
  then show ?case
    by (simp add: processLines_def initial_submit_def onDone_calls_def done_messages_def)
next
  case (snoc l ls)
  let ?s = "processLines opts (initial_submit opts) ls"
  from snoc.prems have p: "\<not> settled (processLine opts ?s l)"
    by (simp add: processLines_snoc)
  then have "\<not> settled ?s" using settled_processLine by blast
  with snoc.IH have ih: "onDone_calls ?s = done_messages ls" "sawDone ?s = (0 < done_messages ls)"
    and w: "ls \<noteq> [] \<Longrightarrow> waitForCompletion opts"
    by simp_all
  have "waitForCompletion opts"
  proof (cases "ls = []")
    case True
    then have "\<not> acknowledged ?s" by (simp add: processLines_def initial_submit_def)
    with p show ?thesis by (rule pending_first_line)
  next
    case False
    then show ?thesis by (rule w)
  qed
  with pending_processLine[OF p] ih show ?case
    by (auto simp: processLines_snoc done_messages_def)
qed



text \<open>
  Claim C10, as amended.  Let the promise be pending after the lines \<open>ls\<close> (at least
  one) and let the \<open>result\<close> message of this request arrive.  Then the promise resolves
  with the result's payload; up to here every \<open>done\<close> message has caused one call of
  \<open>onDone\<close> and nothing else has; if there was no \<open>done\<close> message the client calls
  \<open>onDone\<close> with the result's stop reason, then \<open>flush\<close>, before it resolves, and
  otherwise only \<open>flush\<close>.  So \<open>onDone\<close> has been called at least once when the promise
  resolves, and exactly once if the owner sent at most one \<open>done\<close> message.  A \<open>done\<close>
  message that reaches a pending, acknowledged promise calls \<open>onDone\<close> with its stop
  reason and sets \<open>sawDone\<close>.  A pending promise that has received a line has
  \<open>waitForCompletion\<close> true, for otherwise \<open>accepted\<close> would have resolved it.
\<close>

theorem result_follows_done_notification:
  "(\<not> settled (received opts ls) \<and> ls \<noteq> [] \<longrightarrow>
      waitForCompletion opts
      \<and> resolved_with (on_result opts ls result) (SendResult result)
      \<and> onDone_calls (received opts ls) = done_messages ls
      \<and> onDone_calls (on_result opts ls result) = max 1 (done_messages ls)
      \<and> formatter_calls (on_result opts ls result)
          = formatter_calls (received opts ls)
            @ (if done_messages ls = 0 then [OnDone (stopReason result)] else []) @ [Flush]
      \<and> (done_messages ls \<le> 1 \<longrightarrow> onDone_calls (on_result opts ls result) = 1))
   \<and> (\<not> settled s \<and> acknowledged s \<longrightarrow>
        processLine opts s (Message (opt_requestId opts) (Done reason))
          = s\<lparr>sawDone := True, formatter_calls := formatter_calls s @ [OnDone reason]\<rparr>)"
proof -
  have done_line: "processLine opts s (Message (opt_requestId opts) (Done reason))
          = s\<lparr>sawDone := True, formatter_calls := formatter_calls s @ [OnDone reason]\<rparr>"
    if "\<not> settled s" "acknowledged s"
    using that by (simp add: call_def)
  have res: "waitForCompletion opts
      \<and> resolved_with (on_result opts ls result) (SendResult result)
      \<and> onDone_calls (received opts ls) = done_messages ls
      \<and> onDone_calls (on_result opts ls result) = max 1 (done_messages ls)
      \<and> formatter_calls (on_result opts ls result)
          = formatter_calls (received opts ls)
            @ (if done_messages ls = 0 then [OnDone (stopReason result)] else []) @ [Flush]
      \<and> (done_messages ls \<le> 1 \<longrightarrow> onDone_calls (on_result opts ls result) = 1)"
    if p: "\<not> settled (received opts ls)" and ne: "ls \<noteq> []"
  proof -
    let ?s = "received opts ls"
    from pending_processLines[of opts ls] p ne
    have n: "onDone_calls ?s = done_messages ls" and sd: "sawDone ?s = (0 < done_messages ls)"
      and ack: "acknowledged ?s" and w: "waitForCompletion opts"
      by (simp_all add: received_def)
    have r: "on_result opts ls result
        = finishResolve (SendResult result)
            (call Flush (if \<not> sawDone ?s then call (OnDone (stopReason result)) ?s else ?s))"
      using ack by (simp add: on_result_def)
    show ?thesis
    proof (cases "done_messages ls = 0")
      case True
      with sd have "\<not> sawDone ?s" by simp
      with r p n w True show ?thesis
        by (simp add: onDone_calls_def finishResolve_def call_def resolved_with_def)
    next
      case False
      with sd have "sawDone ?s" by simp
      with r p n w False show ?thesis
        by (simp add: onDone_calls_def finishResolve_def call_def resolved_with_def)
    qed
  qed
  from done_line res show ?thesis by blast
qed

text \<open>
  The claim says exactly once.  An owner that sends \<open>done\<close> twice before \<open>result\<close>
  makes the client call \<open>onDone\<close> twice: the \<open>done\<close> branch does not look at \<open>sawDone\<close>.
\<close>

theorem onDone_called_twice:
  "resolved_with
     (submitToQueueOwner waiting_options
        [Data [Message ''r1'' Accepted, Message ''r1'' (Done ''end_turn''),
               Message ''r1'' (Done ''end_turn''), Message ''r1'' (Result end_turn_result)]])
     (SendResult end_turn_result)
   \<and> onDone_calls
       (submitToQueueOwner waiting_options
          [Data [Message ''r1'' Accepted, Message ''r1'' (Done ''end_turn''),
                 Message ''r1'' (Done ''end_turn''), Message ''r1'' (Result end_turn_result)]]) = 2"
  by (simp add: submitToQueueOwner_def processLines_def initial_submit_def waiting_options_def
      end_turn_result_def settle_defs resolved_with_def onDone_calls_def)

theorem result_follows_done_notification_witness:
  "onDone_calls (on_result waiting_options
       [Message ''r1'' Accepted, Message ''r1'' (SessionUpdate ''u'')] end_turn_result) = 1
   \<and> formatter_calls (on_result waiting_options
       [Message ''r1'' Accepted, Message ''r1'' (SessionUpdate ''u'')] end_turn_result)
      = [SetContext ''s1'' ''r1'' ''prompt'', SetContext ''s1'' ''r1'' ''prompt'',
         OnSessionUpdate ''u'', OnDone ''end_turn'', Flush]
   \<and> onDone_calls (on_result waiting_options
       [Message ''r1'' Accepted, Message ''r1'' (Done ''cancelled'')] end_turn_result) = 1
   \<and> resolved_with (on_result waiting_options
       [Message ''r1'' Accepted, Message ''r1'' (Done ''cancelled'')] end_turn_result)
       (SendResult end_turn_result)"
  using result_follows_done_notification[of waiting_options
      "[Message ''r1'' Accepted, Message ''r1'' (SessionUpdate ''u'')]" end_turn_result]
    result_follows_done_notification[of waiting_options
      "[Message ''r1'' Accepted, Message ''r1'' (Done ''cancelled'')]" end_turn_result]
  by (simp add: received_def processLines_def initial_submit_def waiting_options_def
      end_turn_result_def call_def done_messages_def)

section \<open>Spawn or attach: the deadline, the backoff and the errors\<close>

declare sendLoop.simps [simp del]

lemmas trace_defs = tried_def sleeping_def spawning_def reading_def

lemma sendLoop_submitted:
  "trySubmitToRunningOwner (attempt_world world i) = Inr (Some outcome) \<Longrightarrow>
   sendLoop world d i clock l tr = (Inr outcome, tried tr)"
  by (subst sendLoop.simps) (simp add: Let_def trace_defs)

lemma sendLoop_other_error:
  "trySubmitToRunningOwner (attempt_world world i) = Inl error \<Longrightarrow>
   \<not> isQueueNotAcceptingError error \<Longrightarrow>
   sendLoop world d i clock l tr = (Inl error, tried tr)"
  by (subst sendLoop.simps) (simp add: Let_def trace_defs)

lemma sendLoop_not_accepting_late:
  "trySubmitToRunningOwner (attempt_world world i) = Inl error \<Longrightarrow>
   isQueueNotAcceptingError error \<Longrightarrow> d \<le> reading world i clock \<Longrightarrow>
   sendLoop world d i clock l tr =
     (Inl (startup_timeout
        ''Timed out waiting for detached queue owner to accept prompt requests''), tried tr)"
  by (subst sendLoop.simps) (simp add: Let_def trace_defs)

lemma sendLoop_not_accepting_again:
  "trySubmitToRunningOwner (attempt_world world i) = Inl error \<Longrightarrow>
   isQueueNotAcceptingError error \<Longrightarrow> reading world i clock < d \<Longrightarrow>
   sendLoop world d i clock l tr =
     sendLoop world d (i + 1) (reading world i clock + 50) l (sleeping (tried tr))"
  by (subst sendLoop.simps) (simp add: Let_def trace_defs QUEUE_CONNECT_RETRY_MS_def)

lemma sendLoop_no_owner_late:
  "trySubmitToRunningOwner (attempt_world world i) = Inr None \<Longrightarrow>
   d \<le> reading world i clock \<Longrightarrow>
   sendLoop world d i clock l tr =
     (Inl (startup_timeout ''Timed out waiting for detached queue owner to start''), tried tr)"
  by (subst sendLoop.simps) (simp add: Let_def trace_defs)

lemma sendLoop_no_owner_spawn:
  "trySubmitToRunningOwner (attempt_world world i) = Inr None \<Longrightarrow>
   reading world i clock < d \<Longrightarrow> 250 \<le> reading world i clock - l \<Longrightarrow>
   sendLoop world d i clock l tr =
     sendLoop world d (i + 1) (reading world i clock + 50) (reading world i clock)
       (sleeping (spawning (reading world i clock) (tried tr)))"
  by (subst sendLoop.simps)
     (simp add: Let_def trace_defs QUEUE_CONNECT_RETRY_MS_def QUEUE_OWNER_RESPAWN_BACKOFF_MS_def)

lemma sendLoop_no_owner_backoff:
  "trySubmitToRunningOwner (attempt_world world i) = Inr None \<Longrightarrow>
   reading world i clock < d \<Longrightarrow> reading world i clock - l < 250 \<Longrightarrow>
   sendLoop world d i clock l tr =
     sendLoop world d (i + 1) (reading world i clock + 50) l (sleeping (tried tr))"
  by (subst sendLoop.simps)
     (simp add: Let_def trace_defs QUEUE_CONNECT_RETRY_MS_def QUEUE_OWNER_RESPAWN_BACKOFF_MS_def)

lemma sendLoop_round:
  obtains (submitted) outcome where
      "trySubmitToRunningOwner (attempt_world world i) = Inr (Some outcome)"
  | (other_error) error where "trySubmitToRunningOwner (attempt_world world i) = Inl error"
      "\<not> isQueueNotAcceptingError error"
  | (not_accepting_late) error where
      "trySubmitToRunningOwner (attempt_world world i) = Inl error"
      "isQueueNotAcceptingError error" "d \<le> reading world i clock"
  | (not_accepting_again) error where
      "trySubmitToRunningOwner (attempt_world world i) = Inl error"
      "isQueueNotAcceptingError error" "reading world i clock < d"
  | (no_owner_late) "trySubmitToRunningOwner (attempt_world world i) = Inr None"
      "d \<le> reading world i clock"
  | (no_owner_spawn) "trySubmitToRunningOwner (attempt_world world i) = Inr None"
      "reading world i clock < d" "250 \<le> reading world i clock - l"
  | (no_owner_backoff) "trySubmitToRunningOwner (attempt_world world i) = Inr None"
      "reading world i clock < d" "reading world i clock - l < 250"
proof (cases "trySubmitToRunningOwner (attempt_world world i)")
  case (Inl error)
  then show ?thesis using other_error not_accepting_late not_accepting_again
    by (cases "isQueueNotAcceptingError error"; cases "d \<le> reading world i clock") auto
next
  case (Inr r)
  show ?thesis
  proof (cases r)
    case None
    with Inr show ?thesis using no_owner_late no_owner_spawn no_owner_backoff
      by (cases "d \<le> reading world i clock"; cases "250 \<le> reading world i clock - l") auto
  next
    case (Some outcome)
    with Inr show ?thesis using submitted by simp
  qed
qed

lemma sendLoop_tries:
  "int (tries (snd (sendLoop world d i clock l tr))) * 50
     \<le> int (tries tr) * 50 + 50 + max 0 (d - clock + 49)"
proof (induction world d i clock l tr rule: sendLoop.induct)
  case (1 world d i clock l tr)
  note IH = 1[OF refl refl]
  have ge: "clock \<le> reading world i clock" by (simp add: reading_def)
  show ?case
  proof (cases rule: sendLoop_round[where world=world and i=i and d=d and clock=clock and l=l])
    case (submitted outcome)
    then show ?thesis by (simp add: sendLoop_submitted tried_def)
  next
    case (other_error error)
    then show ?thesis by (simp add: sendLoop_other_error tried_def)
  next
    case (not_accepting_late error)
    then show ?thesis by (simp add: sendLoop_not_accepting_late tried_def)
  next
    case (not_accepting_again error)
    from IH(1)[OF not_accepting_again(1)] not_accepting_again(2,3)
    have "int (tries (snd (sendLoop world d (i + 1) (reading world i clock + 50) l
              (sleeping (tried tr))))) * 50
          \<le> int (tries (sleeping (tried tr))) * 50 + 50 + max 0 (d - (reading world i clock + 50) + 49)"
      by (simp add: trace_defs QUEUE_CONNECT_RETRY_MS_def)
    with ge not_accepting_again show ?thesis
      by (simp add: sendLoop_not_accepting_again trace_defs)
  next
    case no_owner_late
    then show ?thesis by (simp add: sendLoop_no_owner_late tried_def)
  next
    case no_owner_spawn
    from IH(2)[OF no_owner_spawn(1)] no_owner_spawn(2,3)
    have "int (tries (snd (sendLoop world d (i + 1) (reading world i clock + 50)
              (reading world i clock)
              (sleeping (spawning (reading world i clock) (tried tr)))))) * 50
          \<le> int (tries (sleeping (spawning (reading world i clock) (tried tr)))) * 50 + 50
             + max 0 (d - (reading world i clock + 50) + 49)"
      by (simp add: trace_defs QUEUE_CONNECT_RETRY_MS_def QUEUE_OWNER_RESPAWN_BACKOFF_MS_def)
    with ge no_owner_spawn show ?thesis
      by (simp add: sendLoop_no_owner_spawn trace_defs)
  next
    case no_owner_backoff
    from IH(3)[OF no_owner_backoff(1)] no_owner_backoff(2,3)
    have "int (tries (snd (sendLoop world d (i + 1) (reading world i clock + 50) l
              (sleeping (tried tr))))) * 50
          \<le> int (tries (sleeping (tried tr))) * 50 + 50 + max 0 (d - (reading world i clock + 50) + 49)"
      by (simp add: trace_defs QUEUE_CONNECT_RETRY_MS_def QUEUE_OWNER_RESPAWN_BACKOFF_MS_def)
    with ge no_owner_backoff show ?thesis
      by (simp add: sendLoop_no_owner_backoff trace_defs)
  qed
qed

text \<open>
  An invariant of the variables \<open>clock\<close>, \<open>lastSpawnAttemptAt\<close> and the trace that the
  three ways of going round again keep gives a property of the final trace.
\<close>

lemma sendLoop_invariant:
  assumes "I clock l tr"
    and "\<And>clock l tr. I clock l tr \<Longrightarrow> F (tried tr)"
    and "\<And>i clock l tr. I clock l tr \<Longrightarrow> reading world i clock < d \<Longrightarrow>
        I (reading world i clock + 50) l (sleeping (tried tr))"
    and "\<And>i clock l tr. I clock l tr \<Longrightarrow> reading world i clock < d \<Longrightarrow>
        250 \<le> reading world i clock - l \<Longrightarrow>
        I (reading world i clock + 50) (reading world i clock)
          (sleeping (spawning (reading world i clock) (tried tr)))"
  shows "F (snd (sendLoop world d i clock l tr))"
  using assms
proof (induction world d i clock l tr rule: sendLoop.induct)
  case (1 world d i clock l tr)
  note inv = 1(4) and final = 1(5) and again = 1(6) and spawn = 1(7)
  show ?case
  proof (cases rule: sendLoop_round[where world=world and i=i and d=d and clock=clock and l=l])
    case (submitted outcome)
    with final[OF inv] show ?thesis by (simp add: sendLoop_submitted)
  next
    case (other_error error)
    with final[OF inv] show ?thesis by (simp add: sendLoop_other_error)
  next
    case (not_accepting_late error)
    with final[OF inv] show ?thesis by (simp add: sendLoop_not_accepting_late)
  next
    case (not_accepting_again error)
    from again[OF inv not_accepting_again(3)]
    have step: "I (clock + int (attempt_ms world i) + int QUEUE_CONNECT_RETRY_MS) l
        (tr\<lparr>tries := tries tr + 1,
             slept := slept (tr\<lparr>tries := tries tr + 1\<rparr>) @ [QUEUE_CONNECT_RETRY_MS]\<rparr>)"
      by (simp add: trace_defs QUEUE_CONNECT_RETRY_MS_def)
    have "F (snd (sendLoop world d (i + 1)
            (clock + int (attempt_ms world i) + int QUEUE_CONNECT_RETRY_MS) l
            (tr\<lparr>tries := tries tr + 1,
                 slept := slept (tr\<lparr>tries := tries tr + 1\<rparr>) @ [QUEUE_CONNECT_RETRY_MS]\<rparr>)))"
    proof (rule 1(1)[OF refl refl not_accepting_again(1)])
      show "\<not> \<not> isQueueNotAcceptingError error" using not_accepting_again(2) by simp
      show "\<not> d \<le> clock + int (attempt_ms world i)"
        using not_accepting_again(3) by (simp add: reading_def)
    qed (rule refl | fact step final again spawn)+
    with not_accepting_again show ?thesis
      by (simp add: sendLoop_not_accepting_again trace_defs QUEUE_CONNECT_RETRY_MS_def)
  next
    case no_owner_late
    with final[OF inv] show ?thesis by (simp add: sendLoop_no_owner_late)
  next
    case no_owner_spawn
    from spawn[OF inv no_owner_spawn(2,3)]
    have step: "I (clock + int (attempt_ms world i) + int QUEUE_CONNECT_RETRY_MS)
        (clock + int (attempt_ms world i))
        (tr\<lparr>tries := tries tr + 1,
             spawnedAt := spawnedAt (tr\<lparr>tries := tries tr + 1\<rparr>)
                @ [clock + int (attempt_ms world i)],
             slept := slept (tr\<lparr>tries := tries tr + 1\<rparr>) @ [QUEUE_CONNECT_RETRY_MS]\<rparr>)"
      by (simp add: trace_defs QUEUE_CONNECT_RETRY_MS_def)
    have "F (snd (sendLoop world d (i + 1)
            (clock + int (attempt_ms world i) + int QUEUE_CONNECT_RETRY_MS)
            (clock + int (attempt_ms world i))
            (tr\<lparr>tries := tries tr + 1,
                 spawnedAt := spawnedAt (tr\<lparr>tries := tries tr + 1\<rparr>)
                    @ [clock + int (attempt_ms world i)],
                 slept := slept (tr\<lparr>tries := tries tr + 1\<rparr>) @ [QUEUE_CONNECT_RETRY_MS]\<rparr>)))"
    proof (rule 1(2)[OF refl refl no_owner_spawn(1)])
      show "\<not> d \<le> clock + int (attempt_ms world i)"
        using no_owner_spawn(2) by (simp add: reading_def)
      show "QUEUE_OWNER_RESPAWN_BACKOFF_MS \<le> clock + int (attempt_ms world i) - l"
        using no_owner_spawn(3) by (simp add: reading_def QUEUE_OWNER_RESPAWN_BACKOFF_MS_def)
    qed (rule refl | fact step final again spawn)+
    with no_owner_spawn show ?thesis
      by (simp add: sendLoop_no_owner_spawn trace_defs QUEUE_CONNECT_RETRY_MS_def)
  next
    case no_owner_backoff
    from again[OF inv no_owner_backoff(2)]
    have step: "I (clock + int (attempt_ms world i) + int QUEUE_CONNECT_RETRY_MS) l
        (tr\<lparr>tries := tries tr + 1,
             slept := slept (tr\<lparr>tries := tries tr + 1\<rparr>) @ [QUEUE_CONNECT_RETRY_MS]\<rparr>)"
      by (simp add: trace_defs QUEUE_CONNECT_RETRY_MS_def)
    have "F (snd (sendLoop world d (i + 1)
            (clock + int (attempt_ms world i) + int QUEUE_CONNECT_RETRY_MS) l
            (tr\<lparr>tries := tries tr + 1,
                 slept := slept (tr\<lparr>tries := tries tr + 1\<rparr>) @ [QUEUE_CONNECT_RETRY_MS]\<rparr>)))"
    proof (rule 1(3)[OF refl refl no_owner_backoff(1)])
      show "\<not> d \<le> clock + int (attempt_ms world i)"
        using no_owner_backoff(2) by (simp add: reading_def)
      show "\<not> QUEUE_OWNER_RESPAWN_BACKOFF_MS \<le> clock + int (attempt_ms world i) - l"
        using no_owner_backoff(3) by (simp add: reading_def QUEUE_OWNER_RESPAWN_BACKOFF_MS_def)
    qed (rule refl | fact step final again spawn)+
    with no_owner_backoff show ?thesis
      by (simp add: sendLoop_no_owner_backoff trace_defs QUEUE_CONNECT_RETRY_MS_def)
  qed
qed

lemma spaced_snoc:
  "spaced (xs @ [t]) = (spaced xs \<and> (xs = [] \<or> QUEUE_OWNER_RESPAWN_BACKOFF_MS \<le> t - last xs))"
  by (induction xs rule: spaced.induct) auto

abbreviation startup_loop ::
  "spawn_world \<Rightarrow> int \<Rightarrow> (queue_error + SessionSendOutcome) \<times> spawn_trace" where
  "startup_loop world t0 \<equiv>
     sendLoop world (t0 + QUEUE_OWNER_STARTUP_TIMEOUT_MS) 0 t0 0 no_spawn_trace"

lemma startup_loop_slept:
  "slept (snd (startup_loop world t0))
     = replicate (tries (snd (startup_loop world t0)) - 1) QUEUE_CONNECT_RETRY_MS"
  by (rule sendLoop_invariant[where
        I="\<lambda>clock l tr. slept tr = replicate (tries tr) QUEUE_CONNECT_RETRY_MS"])
     (simp_all add: no_spawn_trace_def trace_defs replicate_append_same)

lemma startup_loop_spawns:
  "spaced (spawnedAt (snd (startup_loop world t0)))
   \<and> (\<forall>t \<in> set (spawnedAt (snd (startup_loop world t0))).
         t0 \<le> t \<and> t < t0 + QUEUE_OWNER_STARTUP_TIMEOUT_MS)"
proof (rule sendLoop_invariant[where
        I="\<lambda>clock l tr. spaced (spawnedAt tr)
             \<and> (spawnedAt tr \<noteq> [] \<longrightarrow> last (spawnedAt tr) = l)
             \<and> (\<forall>t \<in> set (spawnedAt tr). t0 \<le> t \<and> t < t0 + QUEUE_OWNER_STARTUP_TIMEOUT_MS)
             \<and> t0 \<le> clock"], goal_cases)
  case 1
  then show ?case by (simp add: no_spawn_trace_def)
next
  case (2 clock l tr)
  then show ?case by (simp add: trace_defs)
next
  case (3 i clock l tr)
  then show ?case by (simp add: trace_defs)
next
  case (4 i clock l tr)
  then show ?case
    by (auto simp: trace_defs spaced_snoc QUEUE_OWNER_RESPAWN_BACKOFF_MS_def)
qed

lemma startup_loop_tries: "tries (snd (startup_loop world t0)) \<le> 201"
  using sendLoop_tries[of world "t0 + QUEUE_OWNER_STARTUP_TIMEOUT_MS" 0 t0 0 no_spawn_trace]
  by (simp add: no_spawn_trace_def QUEUE_OWNER_STARTUP_TIMEOUT_MS_def)

lemma sendLoop_result:
  "(case fst (sendLoop world d i clock l tr) of
      Inr outcome \<Rightarrow> \<exists>j. trySubmitToRunningOwner (attempt_world world j) = Inr (Some outcome)
    | Inl e \<Rightarrow>
        (\<exists>j. trySubmitToRunningOwner (attempt_world world j) = Inl e \<and> \<not> isQueueNotAcceptingError e)
        \<or> (\<exists>text. e = startup_timeout text))"
proof (induction world d i clock l tr rule: sendLoop.induct)
  case (1 world d i clock l tr)
  note IH = 1(1-3)[OF refl refl]
  show ?case
  proof (cases rule: sendLoop_round[where world=world and i=i and d=d and clock=clock and l=l])
    case (submitted outcome)
    then show ?thesis by (auto simp: sendLoop_submitted)
  next
    case (other_error error)
    then show ?thesis by (auto simp: sendLoop_other_error)
  next
    case (not_accepting_late error)
    then show ?thesis by (auto simp: sendLoop_not_accepting_late)
  next
    case (not_accepting_again error)
    with IH(1)[OF not_accepting_again(1)] show ?thesis
      by (simp add: sendLoop_not_accepting_again trace_defs QUEUE_CONNECT_RETRY_MS_def)
  next
    case no_owner_late
    then show ?thesis by (auto simp: sendLoop_no_owner_late)
  next
    case no_owner_spawn
    with IH(2)[OF no_owner_spawn(1)] show ?thesis
      by (simp add: sendLoop_no_owner_spawn trace_defs QUEUE_CONNECT_RETRY_MS_def
          QUEUE_OWNER_RESPAWN_BACKOFF_MS_def)
  next
    case no_owner_backoff
    with IH(3)[OF no_owner_backoff(1)] show ?thesis
      by (simp add: sendLoop_no_owner_backoff trace_defs QUEUE_CONNECT_RETRY_MS_def
          QUEUE_OWNER_RESPAWN_BACKOFF_MS_def)
  qed
qed

text \<open>
  The loop settles in the first round whose call gives an outcome or an error that is
  not \<open>QUEUE_NOT_ACCEPTING_REQUESTS\<close>, or ends at or after the deadline; every round
  before it went round again.
\<close>

lemma rounds_extend:
  assumes "\<exists>k\<ge>i + 1. n = m + 1 + (k - (i + 1)) + 1 \<and> (\<forall>j. i + 1 \<le> j \<and> j < k \<longrightarrow> Q j) \<and> P k"
    and "Q i"
  shows "\<exists>k\<ge>i. n = m + (k - i) + 1 \<and> (\<forall>j. i \<le> j \<and> j < k \<longrightarrow> Q j) \<and> P (k::nat)"
proof -
  from assms(1) obtain k where k: "i + 1 \<le> k" "n = m + 1 + (k - (i + 1)) + 1"
    "\<forall>j. i + 1 \<le> j \<and> j < k \<longrightarrow> Q j" "P k" by blast
  have "Q j" if "i \<le> j" "j < k" for j
  proof (cases "j = i")
    case True
    with assms(2) show ?thesis by simp
  next
    case False
    with that have "i + 1 \<le> j" by simp
    with k(3) that show ?thesis by simp
  qed
  with k show ?thesis by (intro exI[of _ k]) simp
qed

lemma sendLoop_rounds:
  assumes "reading world i clock = ended world t0 i"
  shows "\<exists>k\<ge>i. tries (snd (sendLoop world d i clock l tr)) = tries tr + (k - i) + 1
      \<and> (\<forall>j. i \<le> j \<and> j < k \<longrightarrow> round_result world d j (ended world t0 j) = None)
      \<and> round_result world d k (ended world t0 k) = Some (fst (sendLoop world d i clock l tr))"
  using assms
proof (induction world d i clock l tr rule: sendLoop.induct)
  case (1 world d i clock l tr)
  note IH = 1(1-3)[OF refl refl]
  note at = 1(4)
  have nxt: "reading world (i + 1) (reading world i clock + 50) = ended world t0 (i + 1)"
    using at by (simp add: reading_def)
  let ?P = "\<lambda>R k. round_result world d k (ended world t0 k) = Some (fst R)"
  let ?Q = "\<lambda>j. round_result world d j (ended world t0 j) = None"
  have final: "\<exists>k\<ge>i. tries (snd R) = tries tr + (k - i) + 1
      \<and> (\<forall>j. i \<le> j \<and> j < k \<longrightarrow> ?Q j) \<and> ?P R k"
    if "R = (r, tried tr)" "round_result world d i (ended world t0 i) = Some r" for R r
    using that by (intro exI[of _ i]) (auto simp: tried_def)
  show ?case
  proof (cases rule: sendLoop_round[where world=world and i=i and d=d and clock=clock and l=l])
    case (submitted outcome)
    then have "round_result world d i (ended world t0 i) = Some (Inr outcome)"
      by (simp add: round_result_def)
    from final[OF sendLoop_submitted[OF submitted] this] show ?thesis .
  next
    case (other_error error)
    then have "round_result world d i (ended world t0 i) = Some (Inl error)"
      by (simp add: round_result_def)
    from final[OF sendLoop_other_error[OF other_error] this] show ?thesis .
  next
    case (not_accepting_late error)
    with at have "round_result world d i (ended world t0 i)
        = Some (Inl (startup_timeout
            ''Timed out waiting for detached queue owner to accept prompt requests''))"
      by (simp add: round_result_def)
    from final[OF sendLoop_not_accepting_late[OF not_accepting_late] this] show ?thesis .
  next
    case (not_accepting_again error)
    let ?R' = "sendLoop world d (i + 1) (reading world i clock + 50) l (sleeping (tried tr))"
    from not_accepting_again at have q: "?Q i" by (simp add: round_result_def)
    have "\<exists>k\<ge>i + 1. tries (snd ?R') = tries (sleeping (tried tr)) + (k - (i + 1)) + 1
        \<and> (\<forall>j. i + 1 \<le> j \<and> j < k \<longrightarrow> ?Q j) \<and> ?P ?R' k"
      using IH(1)[OF not_accepting_again(1)] not_accepting_again(2,3) nxt
      by (simp add: trace_defs QUEUE_CONNECT_RETRY_MS_def)
    then have "\<exists>k\<ge>i + 1. tries (snd ?R') = tries tr + 1 + (k - (i + 1)) + 1
        \<and> (\<forall>j. i + 1 \<le> j \<and> j < k \<longrightarrow> ?Q j) \<and> ?P ?R' k"
      by (simp add: trace_defs)
    from rounds_extend[where Q="?Q" and P="?P ?R'", OF this q] show ?thesis
      by (simp add: sendLoop_not_accepting_again[OF not_accepting_again])
  next
    case no_owner_late
    with at have "round_result world d i (ended world t0 i)
        = Some (Inl (startup_timeout ''Timed out waiting for detached queue owner to start''))"
      by (simp add: round_result_def)
    from final[OF sendLoop_no_owner_late[OF no_owner_late] this] show ?thesis .
  next
    case no_owner_spawn
    let ?R' = "sendLoop world d (i + 1) (reading world i clock + 50) (reading world i clock)
                 (sleeping (spawning (reading world i clock) (tried tr)))"
    from no_owner_spawn at have q: "?Q i" by (simp add: round_result_def)
    have "\<exists>k\<ge>i + 1. tries (snd ?R')
          = tries (sleeping (spawning (reading world i clock) (tried tr))) + (k - (i + 1)) + 1
        \<and> (\<forall>j. i + 1 \<le> j \<and> j < k \<longrightarrow> ?Q j) \<and> ?P ?R' k"
      using IH(2)[OF no_owner_spawn(1)] no_owner_spawn(2,3) nxt
      by (simp add: trace_defs QUEUE_CONNECT_RETRY_MS_def QUEUE_OWNER_RESPAWN_BACKOFF_MS_def)
    then have "\<exists>k\<ge>i + 1. tries (snd ?R') = tries tr + 1 + (k - (i + 1)) + 1
        \<and> (\<forall>j. i + 1 \<le> j \<and> j < k \<longrightarrow> ?Q j) \<and> ?P ?R' k"
      by (simp add: trace_defs)
    from rounds_extend[where Q="?Q" and P="?P ?R'", OF this q] show ?thesis
      by (simp add: sendLoop_no_owner_spawn[OF no_owner_spawn])
  next
    case no_owner_backoff
    let ?R' = "sendLoop world d (i + 1) (reading world i clock + 50) l (sleeping (tried tr))"
    from no_owner_backoff at have q: "?Q i" by (simp add: round_result_def)
    have "\<exists>k\<ge>i + 1. tries (snd ?R') = tries (sleeping (tried tr)) + (k - (i + 1)) + 1
        \<and> (\<forall>j. i + 1 \<le> j \<and> j < k \<longrightarrow> ?Q j) \<and> ?P ?R' k"
      using IH(3)[OF no_owner_backoff(1)] no_owner_backoff(2,3) nxt
      by (simp add: trace_defs QUEUE_CONNECT_RETRY_MS_def QUEUE_OWNER_RESPAWN_BACKOFF_MS_def)
    then have "\<exists>k\<ge>i + 1. tries (snd ?R') = tries tr + 1 + (k - (i + 1)) + 1
        \<and> (\<forall>j. i + 1 \<le> j \<and> j < k \<longrightarrow> ?Q j) \<and> ?P ?R' k"
      by (simp add: trace_defs)
    from rounds_extend[where Q="?Q" and P="?P ?R'", OF this q] show ?thesis
      by (simp add: sendLoop_no_owner_backoff[OF no_owner_backoff])
  qed
qed

lemma startup_loop_rounds:
  "1 \<le> tries (snd (startup_loop world t0))
   \<and> round_result world (t0 + 10000) (tries (snd (startup_loop world t0)) - 1)
        (ended world t0 (tries (snd (startup_loop world t0)) - 1))
       = Some (fst (startup_loop world t0))
   \<and> (\<forall>j < tries (snd (startup_loop world t0)) - 1.
         round_result world (t0 + 10000) j (ended world t0 j) = None)"
proof -
  have "reading world 0 t0 = ended world t0 0" by (simp add: reading_def)
  from sendLoop_rounds[OF this, of "t0 + QUEUE_OWNER_STARTUP_TIMEOUT_MS" 0 no_spawn_trace]
  obtain k where k: "tries (snd (startup_loop world t0)) = k + 1"
    "\<forall>j. j < k \<longrightarrow> round_result world (t0 + 10000) j (ended world t0 j) = None"
    "round_result world (t0 + 10000) k (ended world t0 k) = Some (fst (startup_loop world t0))"
    by (auto simp: no_spawn_trace_def QUEUE_OWNER_STARTUP_TIMEOUT_MS_def)
  then show ?thesis by simp
qed

lemma sendVia_unavailable:
  "ownerSpawn options env = Inl failure \<Longrightarrow>
   sendViaDetachedQueueOwner options env world t0 = (Inl (PlainError failure), no_spawn_trace)"
  by (simp add: sendViaDetachedQueueOwner_def)

lemma sendVia_loop:
  "ownerSpawn options env = Inr config \<Longrightarrow>
   sendViaDetachedQueueOwner options env world t0
     = (settled_as (fst (startup_loop world t0)), snd (startup_loop world t0))"
  by (simp add: sendViaDetachedQueueOwner_def settled_as_def split: prod.splits sum.splits)

lemma sendVia_trace:
  "snd (sendViaDetachedQueueOwner options env world t0) = no_spawn_trace
   \<or> snd (sendViaDetachedQueueOwner options env world t0) = snd (startup_loop world t0)"
  by (cases "ownerSpawn options env") (simp_all add: sendVia_unavailable sendVia_loop)

lemma sendVia_bounds:
  "tries (snd (sendViaDetachedQueueOwner options env world t0)) \<le> 201
   \<and> slept (snd (sendViaDetachedQueueOwner options env world t0))
       = replicate (tries (snd (sendViaDetachedQueueOwner options env world t0)) - 1)
           QUEUE_CONNECT_RETRY_MS
   \<and> spaced (spawnedAt (snd (sendViaDetachedQueueOwner options env world t0)))
   \<and> (\<forall>t \<in> set (spawnedAt (snd (sendViaDetachedQueueOwner options env world t0))).
         t0 \<le> t \<and> t < t0 + 10000)"
proof (cases "ownerSpawn options env")
  case (Inl failure)
  then show ?thesis by (simp add: sendVia_unavailable no_spawn_trace_def)
next
  case (Inr config)
  with startup_loop_tries[of world t0] startup_loop_slept[of world t0]
    startup_loop_spawns[of world t0]
  show ?thesis by (simp add: sendVia_loop QUEUE_OWNER_STARTUP_TIMEOUT_MS_def)
qed

lemma sendVia_result:
  "(case fst (sendViaDetachedQueueOwner options env world t0) of
      Inr outcome \<Rightarrow>
        \<exists>j. trySubmitToRunningOwner (attempt_world world j) = Inr (Some outcome)
    | Inl (QueueError e) \<Rightarrow>
        (\<exists>j. trySubmitToRunningOwner (attempt_world world j) = Inl e
             \<and> \<not> isQueueNotAcceptingError e)
        \<or> (\<exists>text. e = startup_timeout text)
    | Inl (PlainError failure) \<Rightarrow> ownerSpawn options env = Inl failure)"
proof (cases "ownerSpawn options env")
  case (Inl failure)
  then show ?thesis by (simp add: sendVia_unavailable)
next
  case (Inr config)
  with sendLoop_result[of world "t0 + QUEUE_OWNER_STARTUP_TIMEOUT_MS" 0 t0 0 no_spawn_trace]
  show ?thesis by (simp add: sendVia_loop settled_as_def split: sum.splits)
qed

lemma owner_after_six_run:
  "sendViaDetachedQueueOwner own_spawn_options cli_process owner_after_six 1700000000000
   = (Inr (EnqueueResult \<lparr>queued = True, sessionId = ''s1'', requestId = ''r1''\<rparr>),
      \<lparr>tries = 7, spawnedAt = [1700000000000, 1700000000250],
        slept = [50, 50, 50, 50, 50, 50]\<rparr>)"
  by code_simp

lemma no_entrypoint_run:
  "sendViaDetachedQueueOwner default_spawn_options no_entrypoint owner_after_six 1700000000000
   = (Inl (PlainError ''Cannot spawn queue owner process: CLI entrypoint is missing''),
      \<lparr>tries = 0, spawnedAt = [], slept = []\<rparr>)"
  by code_simp

lemma startup_timeout_code:
  "detailCode (startup_timeout text) = Some ''QUEUE_NOT_ACCEPTING_REQUESTS''
   \<and> retryable (startup_timeout text) = Some True
   \<and> isQueueNotAcceptingError (startup_timeout text)"
  by (simp add: startup_timeout_def queue_failure_def isQueueNotAcceptingError_def)

text \<open>
  Claim C5, as amended.  Before the loop the function needs the spawn configuration:
  if the caller gave none and \<open>buildDefaultQueueOwnerSpawn\<close> fails, the function rejects
  with that failure and has called nothing.  Otherwise it runs the loop with the
  deadline 10000 ms after the clock reading \<open>t0\<close>.  One round of the loop, started at
  clock reading \<open>clock\<close> with the deadline \<open>d\<close>, calls \<open>trySubmitToRunningOwner\<close> once and
  then: returns the outcome if there is one; rethrows at once an error that is not
  \<open>QUEUE_NOT_ACCEPTING_REQUESTS\<close>; on that error, and on \<open>undefined\<close>, throws a
  retryable \<open>QUEUE_NOT_ACCEPTING_REQUESTS\<close> error of its own if the clock has reached
  the deadline, and otherwise sleeps 50 ms and goes round again.  Before sleeping it
  spawns a detached owner if and only if the result was \<open>undefined\<close> and the last spawn
  is at least 250 ms old (the claim's ``more than'' is the source's \<open>>=\<close>).  For the
  whole function: the round that settles it is the first whose call gives an outcome or
  another error, or ends 10000 ms or more after \<open>t0\<close>, where the call number \<open>k\<close> ends at
  \<open>ended world t0 k\<close>; every round before it went round again.  The function returns
  after at most 201 calls, it has slept 50 ms between any two calls, and its spawns
  lie between \<open>t0\<close> and the deadline and are at least 250 ms apart.  What it returns is
  the outcome of one of the calls; what it rejects with is the failure of the spawn
  configuration, or an error of one of the calls that is not
  \<open>QUEUE_NOT_ACCEPTING_REQUESTS\<close>, or its own \<open>QUEUE_NOT_ACCEPTING_REQUESTS\<close> error.
\<close>

theorem spawn_or_attach_rounds:
  "(trySubmitToRunningOwner (attempt_world world i) = Inr (Some outcome) \<longrightarrow>
      sendLoop world d i clock l tr = (Inr outcome, tried tr))
   \<and> (trySubmitToRunningOwner (attempt_world world i) = Inl error
        \<and> \<not> isQueueNotAcceptingError error \<longrightarrow>
      sendLoop world d i clock l tr = (Inl error, tried tr))
   \<and> (trySubmitToRunningOwner (attempt_world world i) = Inl error
        \<and> isQueueNotAcceptingError error \<and> d \<le> reading world i clock \<longrightarrow>
      sendLoop world d i clock l tr =
        (Inl (startup_timeout
           ''Timed out waiting for detached queue owner to accept prompt requests''), tried tr))
   \<and> (trySubmitToRunningOwner (attempt_world world i) = Inl error
        \<and> isQueueNotAcceptingError error \<and> reading world i clock < d \<longrightarrow>
      sendLoop world d i clock l tr =
        sendLoop world d (i + 1) (reading world i clock + 50) l (sleeping (tried tr)))
   \<and> (trySubmitToRunningOwner (attempt_world world i) = Inr None
        \<and> d \<le> reading world i clock \<longrightarrow>
      sendLoop world d i clock l tr =
        (Inl (startup_timeout ''Timed out waiting for detached queue owner to start''),
         tried tr))
   \<and> (trySubmitToRunningOwner (attempt_world world i) = Inr None
        \<and> reading world i clock < d
        \<and> QUEUE_OWNER_RESPAWN_BACKOFF_MS \<le> reading world i clock - l \<longrightarrow>
      sendLoop world d i clock l tr =
        sendLoop world d (i + 1) (reading world i clock + 50) (reading world i clock)
          (sleeping (spawning (reading world i clock) (tried tr))))
   \<and> (trySubmitToRunningOwner (attempt_world world i) = Inr None
        \<and> reading world i clock < d
        \<and> reading world i clock - l < QUEUE_OWNER_RESPAWN_BACKOFF_MS \<longrightarrow>
      sendLoop world d i clock l tr =
        sendLoop world d (i + 1) (reading world i clock + 50) l (sleeping (tried tr)))
   \<and> detailCode (startup_timeout text) = Some ''QUEUE_NOT_ACCEPTING_REQUESTS''
   \<and> retryable (startup_timeout text) = Some True
   \<and> (ownerSpawn options env = Inl failure \<longrightarrow>
        sendViaDetachedQueueOwner options env world t0
          = (Inl (PlainError failure), no_spawn_trace))
   \<and> (ownerSpawn options env = Inr config \<longrightarrow>
        sendViaDetachedQueueOwner options env world t0
          = (settled_as (fst (sendLoop world (t0 + 10000) 0 t0 0 no_spawn_trace)),
             snd (sendLoop world (t0 + 10000) 0 t0 0 no_spawn_trace))
        \<and> 1 \<le> tries (snd (sendViaDetachedQueueOwner options env world t0))
        \<and> map_option settled_as
            (round_result world (t0 + 10000)
               (tries (snd (sendViaDetachedQueueOwner options env world t0)) - 1)
               (ended world t0 (tries (snd (sendViaDetachedQueueOwner options env world t0)) - 1)))
          = Some (fst (sendViaDetachedQueueOwner options env world t0))
        \<and> (\<forall>j < tries (snd (sendViaDetachedQueueOwner options env world t0)) - 1.
              round_result world (t0 + 10000) j (ended world t0 j) = None))
   \<and> tries (snd (sendViaDetachedQueueOwner options env world t0)) \<le> 201
   \<and> slept (snd (sendViaDetachedQueueOwner options env world t0))
       = replicate (tries (snd (sendViaDetachedQueueOwner options env world t0)) - 1)
           QUEUE_CONNECT_RETRY_MS
   \<and> spaced (spawnedAt (snd (sendViaDetachedQueueOwner options env world t0)))
   \<and> (\<forall>t \<in> set (spawnedAt (snd (sendViaDetachedQueueOwner options env world t0))).
         t0 \<le> t \<and> t < t0 + 10000)
   \<and> (case fst (sendViaDetachedQueueOwner options env world t0) of
         Inr outcome \<Rightarrow>
           \<exists>j. trySubmitToRunningOwner (attempt_world world j) = Inr (Some outcome)
       | Inl (QueueError e) \<Rightarrow>
           (\<exists>j. trySubmitToRunningOwner (attempt_world world j) = Inl e
                \<and> \<not> isQueueNotAcceptingError e)
           \<or> (\<exists>text. e = startup_timeout text)
       | Inl (PlainError failure) \<Rightarrow> ownerSpawn options env = Inl failure)"
proof -
  have r1: "trySubmitToRunningOwner (attempt_world world i) = Inr (Some outcome) \<longrightarrow>
      sendLoop world d i clock l tr = (Inr outcome, tried tr)"
    using sendLoop_submitted[of world i outcome d clock l tr] by blast
  have r2: "trySubmitToRunningOwner (attempt_world world i) = Inl error
        \<and> \<not> isQueueNotAcceptingError error \<longrightarrow>
      sendLoop world d i clock l tr = (Inl error, tried tr)"
    using sendLoop_other_error[of world i error d clock l tr] by blast
  have r3: "trySubmitToRunningOwner (attempt_world world i) = Inl error
        \<and> isQueueNotAcceptingError error \<and> d \<le> reading world i clock \<longrightarrow>
      sendLoop world d i clock l tr =
        (Inl (startup_timeout
           ''Timed out waiting for detached queue owner to accept prompt requests''), tried tr)"
    using sendLoop_not_accepting_late[of world i error d clock l tr] by blast
  have r4: "trySubmitToRunningOwner (attempt_world world i) = Inl error
        \<and> isQueueNotAcceptingError error \<and> reading world i clock < d \<longrightarrow>
      sendLoop world d i clock l tr =
        sendLoop world d (i + 1) (reading world i clock + 50) l (sleeping (tried tr))"
    using sendLoop_not_accepting_again[of world i error clock d l tr] by blast
  have r5: "trySubmitToRunningOwner (attempt_world world i) = Inr None
        \<and> d \<le> reading world i clock \<longrightarrow>
      sendLoop world d i clock l tr =
        (Inl (startup_timeout ''Timed out waiting for detached queue owner to start''),
         tried tr)"
    using sendLoop_no_owner_late[of world i d clock l tr] by blast
  have r6: "trySubmitToRunningOwner (attempt_world world i) = Inr None
        \<and> reading world i clock < d
        \<and> QUEUE_OWNER_RESPAWN_BACKOFF_MS \<le> reading world i clock - l \<longrightarrow>
      sendLoop world d i clock l tr =
        sendLoop world d (i + 1) (reading world i clock + 50) (reading world i clock)
          (sleeping (spawning (reading world i clock) (tried tr)))"
    using sendLoop_no_owner_spawn[of world i clock d l tr]
    unfolding QUEUE_OWNER_RESPAWN_BACKOFF_MS_def by blast
  have r7: "trySubmitToRunningOwner (attempt_world world i) = Inr None
        \<and> reading world i clock < d
        \<and> reading world i clock - l < QUEUE_OWNER_RESPAWN_BACKOFF_MS \<longrightarrow>
      sendLoop world d i clock l tr =
        sendLoop world d (i + 1) (reading world i clock + 50) l (sleeping (tried tr))"
    using sendLoop_no_owner_backoff[of world i clock d l tr]
    unfolding QUEUE_OWNER_RESPAWN_BACKOFF_MS_def by blast
  have r8: "detailCode (startup_timeout text) = Some ''QUEUE_NOT_ACCEPTING_REQUESTS''"
    and r9: "retryable (startup_timeout text) = Some True"
    using startup_timeout_code[of "text"] by simp_all
  have r10: "ownerSpawn options env = Inl failure \<longrightarrow>
        sendViaDetachedQueueOwner options env world t0
          = (Inl (PlainError failure), no_spawn_trace)"
    using sendVia_unavailable[of options env failure world t0] by blast
  note bounds = sendVia_bounds[of options env world t0]
  note b1 = bounds[THEN conjunct1]
    and b2 = bounds[THEN conjunct2, THEN conjunct1]
    and b3 = bounds[THEN conjunct2, THEN conjunct2, THEN conjunct1]
    and b4 = bounds[THEN conjunct2, THEN conjunct2, THEN conjunct2]
  note result = sendVia_result[of options env world t0]
  have whole: "ownerSpawn options env = Inr config \<longrightarrow>
        sendViaDetachedQueueOwner options env world t0
          = (settled_as (fst (sendLoop world (t0 + 10000) 0 t0 0 no_spawn_trace)),
             snd (sendLoop world (t0 + 10000) 0 t0 0 no_spawn_trace))
        \<and> 1 \<le> tries (snd (sendViaDetachedQueueOwner options env world t0))
        \<and> map_option settled_as
            (round_result world (t0 + 10000)
               (tries (snd (sendViaDetachedQueueOwner options env world t0)) - 1)
               (ended world t0 (tries (snd (sendViaDetachedQueueOwner options env world t0)) - 1)))
          = Some (fst (sendViaDetachedQueueOwner options env world t0))
        \<and> (\<forall>j < tries (snd (sendViaDetachedQueueOwner options env world t0)) - 1.
              round_result world (t0 + 10000) j (ended world t0 j) = None)"
  proof
    assume cfg: "ownerSpawn options env = Inr config"
    note eq = sendVia_loop[OF cfg, of world t0]
    from startup_loop_rounds[of world t0] eq show "sendViaDetachedQueueOwner options env world t0
          = (settled_as (fst (sendLoop world (t0 + 10000) 0 t0 0 no_spawn_trace)),
             snd (sendLoop world (t0 + 10000) 0 t0 0 no_spawn_trace))
        \<and> 1 \<le> tries (snd (sendViaDetachedQueueOwner options env world t0))
        \<and> map_option settled_as
            (round_result world (t0 + 10000)
               (tries (snd (sendViaDetachedQueueOwner options env world t0)) - 1)
               (ended world t0 (tries (snd (sendViaDetachedQueueOwner options env world t0)) - 1)))
          = Some (fst (sendViaDetachedQueueOwner options env world t0))
        \<and> (\<forall>j < tries (snd (sendViaDetachedQueueOwner options env world t0)) - 1.
              round_result world (t0 + 10000) j (ended world t0 j) = None)"
      by (simp add: QUEUE_OWNER_STARTUP_TIMEOUT_MS_def)
  qed
  show ?thesis
    by (intro conjI) (rule r1 r2 r3 r4 r5 r6 r7 r8 r9 r10 whole b1 b2 b3 b4 result)+
qed

text \<open>
  The claim says that a child is started only when the previous spawn was more than
  250 ms ago.  With no owner for six calls that take no measurable time, the loop spawns
  at its first call and again at its sixth, five sleeps of 50 ms later: exactly 250 ms
  after the previous spawn, which is not more than 250 ms.
\<close>

theorem respawn_after_exactly_250_ms:
  "spawnedAt (snd (sendViaDetachedQueueOwner own_spawn_options cli_process owner_after_six
       1700000000000))
     = [1700000000000, 1700000000250]
   \<and> \<not> (250 < (1700000000250 - 1700000000000 :: int))
   \<and> trySubmitToRunningOwner (attempt_world owner_after_six 5) = Inr None"
proof -
  have "trySubmitToRunningOwner (attempt_world owner_after_six 5) = Inr None"
    by (simp add: owner_after_six_def no_owner_def trySubmitToRunningOwner_def)
  then show ?thesis by (simp add: owner_after_six_run)
qed

theorem spawn_or_attach_rounds_witness:
  "sendViaDetachedQueueOwner own_spawn_options cli_process owner_after_six 1700000000000
     = (Inr (EnqueueResult \<lparr>queued = True, sessionId = ''s1'', requestId = ''r1''\<rparr>),
        \<lparr>tries = 7, spawnedAt = [1700000000000, 1700000000250],
          slept = [50, 50, 50, 50, 50, 50]\<rparr>)
   \<and> sendViaDetachedQueueOwner default_spawn_options no_entrypoint owner_after_six 1700000000000
     = (Inl (PlainError ''Cannot spawn queue owner process: CLI entrypoint is missing''),
        no_spawn_trace)
   \<and> sendLoop owner_after_six 1700000010000 6 1700000000300 1700000000250
        \<lparr>tries = 6, spawnedAt = [1700000000000, 1700000000250], slept = [50, 50, 50, 50, 50, 50]\<rparr>
       = (Inr (EnqueueResult \<lparr>queued = True, sessionId = ''s1'', requestId = ''r1''\<rparr>),
          \<lparr>tries = 7, spawnedAt = [1700000000000, 1700000000250],
            slept = [50, 50, 50, 50, 50, 50]\<rparr>)
   \<and> round_result owner_after_six (1700000000000 + 10000) 6
        (ended owner_after_six 1700000000000 6)
       = Some (Inr (EnqueueResult \<lparr>queued = True, sessionId = ''s1'', requestId = ''r1''\<rparr>))
   \<and> round_result owner_after_six (1700000000000 + 10000) 5
        (ended owner_after_six 1700000000000 5) = None"
proof -
  have six: "trySubmitToRunningOwner (attempt_world owner_after_six 6)
      = Inr (Some (EnqueueResult \<lparr>queued = True, sessionId = ''s1'', requestId = ''r1''\<rparr>))"
    by (simp add: owner_after_six_def owner_queues_def trySubmitToRunningOwner_def)
  have own: "ownerSpawn own_spawn_options cli_process
      = Inr \<lparr>command = ''node'', args = [Arg ''acpx'', Arg ''__queue-owner''], cwd = None\<rparr>"
    by (simp add: ownerSpawn_def own_spawn_options_def)
  have none: "ownerSpawn default_spawn_options no_entrypoint
      = Inl ''Cannot spawn queue owner process: CLI entrypoint is missing''"
    by (simp add: ownerSpawn_def default_spawn_options_def own_spawn_options_def
        buildDefaultQueueOwnerSpawn_def no_entrypoint_def truthy_string_def)
  note a = spawn_or_attach_rounds[of owner_after_six 6
      "EnqueueResult \<lparr>queued = True, sessionId = ''s1'', requestId = ''r1''\<rparr>"
      1700000010000 1700000000300 1700000000250
      "\<lparr>tries = 6, spawnedAt = [1700000000000, 1700000000250], slept = [50, 50, 50, 50, 50, 50]\<rparr>"
      "startup_timeout []" "[]" own_spawn_options cli_process "[]" 1700000000000
      "\<lparr>command = ''node'', args = [Arg ''acpx'', Arg ''__queue-owner''], cwd = None\<rparr>"]
  note b = spawn_or_attach_rounds[of owner_after_six 0
      "EnqueueResult \<lparr>queued = True, sessionId = ''s1'', requestId = ''r1''\<rparr>"
      0 0 0 no_spawn_trace "startup_timeout []" "[]" default_spawn_options no_entrypoint
      "''Cannot spawn queue owner process: CLI entrypoint is missing''" 1700000000000
      "\<lparr>command = ''node'', args = [], cwd = None\<rparr>"]
  note first = a[THEN conjunct1]
  note whole = a[THEN conjunct2, THEN conjunct2, THEN conjunct2, THEN conjunct2, THEN conjunct2, THEN conjunct2, THEN conjunct2, THEN conjunct2, THEN conjunct2, THEN conjunct2, THEN conjunct1]
  note unavailable = b[THEN conjunct2, THEN conjunct2, THEN conjunct2, THEN conjunct2, THEN conjunct2, THEN conjunct2, THEN conjunct2, THEN conjunct2, THEN conjunct2, THEN conjunct1]
  from first six have a1: "sendLoop owner_after_six 1700000010000 6 1700000000300 1700000000250
        \<lparr>tries = 6, spawnedAt = [1700000000000, 1700000000250], slept = [50, 50, 50, 50, 50, 50]\<rparr>
       = (Inr (EnqueueResult \<lparr>queued = True, sessionId = ''s1'', requestId = ''r1''\<rparr>),
          \<lparr>tries = 7, spawnedAt = [1700000000000, 1700000000250],
            slept = [50, 50, 50, 50, 50, 50]\<rparr>)"
    by (simp add: tried_def)
  let ?S = "sendViaDetachedQueueOwner own_spawn_options cli_process owner_after_six 1700000000000"
  from whole own have "map_option settled_as
            (round_result owner_after_six (1700000000000 + 10000) (tries (snd ?S) - 1)
               (ended owner_after_six 1700000000000 (tries (snd ?S) - 1)))
          = Some (fst ?S)
        \<and> (\<forall>j < tries (snd ?S) - 1.
              round_result owner_after_six (1700000000000 + 10000) j
                (ended owner_after_six 1700000000000 j) = None)"
    by blast
  then have a2: "map_option settled_as
        (round_result owner_after_six (1700000000000 + 10000) 6
           (ended owner_after_six 1700000000000 6))
       = Some (Inr (EnqueueResult \<lparr>queued = True, sessionId = ''s1'', requestId = ''r1''\<rparr>))
     \<and> (\<forall>j<6. round_result owner_after_six (1700000000000 + 10000) j
           (ended owner_after_six 1700000000000 j) = None)"
    unfolding owner_after_six_run by simp
  have a3: "round_result owner_after_six (1700000000000 + 10000) 6
        (ended owner_after_six 1700000000000 6)
       = Some (Inr (EnqueueResult \<lparr>queued = True, sessionId = ''s1'', requestId = ''r1''\<rparr>))"
  proof (cases "round_result owner_after_six (1700000000000 + 10000) 6
        (ended owner_after_six 1700000000000 6)")
    case None
    with a2 show ?thesis by simp
  next
    case (Some r)
    with a2 show ?thesis by (cases r) (simp_all add: settled_as_def)
  qed
  from a2 have a4: "round_result owner_after_six (1700000000000 + 10000) 5
        (ended owner_after_six 1700000000000 5) = None" by simp
  from unavailable none have b1: "sendViaDetachedQueueOwner default_spawn_options no_entrypoint
        owner_after_six 1700000000000
     = (Inl (PlainError ''Cannot spawn queue owner process: CLI entrypoint is missing''),
        no_spawn_trace)" by simp
  from a1 a3 a4 b1 show ?thesis by (simp add: owner_after_six_run)
qed

section \<open>The formatters and errors\<close>



section \<open>At most one owner\<close>

lemma stage_at_stage [simp]:
  "stage_of (at_stage p st s) q = (if q = p then st else stage_of s q)"
  "lockFile (at_stage p st s) = lockFile s"
  by (simp_all add: at_stage_def)











end
